theory Spec2Isabelle
  imports Complex_Main
begin

section \<open>Numbers and array cells of the indicator library\<close>

text \<open>
  A JavaScript \<open>number\<close> is modelled as a finite real number with exact arithmetic, or
  one of the three special values. Rounding, overflow to an infinity and the sign of
  zero are not modelled; a zero divisor is taken to be \<open>+0\<close> (the only divisor of the
  library that can be zero is the whole-number parameter \<open>period\<close>).
\<close>

datatype jsnum = Num real | PInf | NInf | NaN

fun jneg :: "jsnum \<Rightarrow> jsnum" where
  "jneg (Num a) = Num (- a)"
| "jneg PInf = NInf"
| "jneg NInf = PInf"
| "jneg NaN = NaN"

fun jadd :: "jsnum \<Rightarrow> jsnum \<Rightarrow> jsnum" where
  "jadd (Num a) (Num b) = Num (a + b)"
| "jadd NaN _ = NaN"
| "jadd _ NaN = NaN"
| "jadd PInf NInf = NaN"
| "jadd NInf PInf = NaN"
| "jadd PInf _ = PInf"
| "jadd _ PInf = PInf"
| "jadd NInf _ = NInf"
| "jadd _ NInf = NInf"

definition jsub :: "jsnum \<Rightarrow> jsnum \<Rightarrow> jsnum" where
  "jsub a b = jadd a (jneg b)"

fun jmul :: "jsnum \<Rightarrow> jsnum \<Rightarrow> jsnum" where
  "jmul (Num a) (Num b) = Num (a * b)"
| "jmul NaN _ = NaN"
| "jmul _ NaN = NaN"
| "jmul (Num a) PInf = (if a = 0 then NaN else if 0 < a then PInf else NInf)"
| "jmul (Num a) NInf = (if a = 0 then NaN else if 0 < a then NInf else PInf)"
| "jmul PInf (Num b) = (if b = 0 then NaN else if 0 < b then PInf else NInf)"
| "jmul NInf (Num b) = (if b = 0 then NaN else if 0 < b then NInf else PInf)"
| "jmul PInf PInf = PInf"
| "jmul NInf NInf = PInf"
| "jmul PInf NInf = NInf"
| "jmul NInf PInf = NInf"

fun jdiv :: "jsnum \<Rightarrow> jsnum \<Rightarrow> jsnum" where
  "jdiv (Num a) (Num b) =
     (if b \<noteq> 0 then Num (a / b)
      else if a = 0 then NaN else if 0 < a then PInf else NInf)"
| "jdiv NaN _ = NaN"
| "jdiv _ NaN = NaN"
| "jdiv (Num a) PInf = Num 0"
| "jdiv (Num a) NInf = Num 0"
| "jdiv PInf (Num b) = (if 0 \<le> b then PInf else NInf)"
| "jdiv NInf (Num b) = (if 0 \<le> b then NInf else PInf)"
| "jdiv PInf PInf = NaN"
| "jdiv PInf NInf = NaN"
| "jdiv NInf PInf = NaN"
| "jdiv NInf NInf = NaN"

text \<open>\<open>a > b\<close>: false as soon as one side is NaN.\<close>

fun jgt :: "jsnum \<Rightarrow> jsnum \<Rightarrow> bool" where
  "jgt (Num a) (Num b) = (b < a)"
| "jgt NaN _ = False"
| "jgt _ NaN = False"
| "jgt PInf PInf = False"
| "jgt PInf _ = True"
| "jgt _ PInf = False"
| "jgt NInf _ = False"
| "jgt (Num a) NInf = True"

definition jlt :: "jsnum \<Rightarrow> jsnum \<Rightarrow> bool" where
  "jlt a b = jgt b a"

fun jabs :: "jsnum \<Rightarrow> jsnum" where
  "jabs (Num a) = Num \<bar>a\<bar>"
| "jabs PInf = PInf"
| "jabs NInf = PInf"
| "jabs NaN = NaN"

text \<open>\<open>Math.max\<close> of two and of three arguments: NaN as soon as one argument is NaN.\<close>

fun jmax :: "jsnum \<Rightarrow> jsnum \<Rightarrow> jsnum" where
  "jmax (Num a) (Num b) = Num (max a b)"
| "jmax NaN _ = NaN"
| "jmax _ NaN = NaN"
| "jmax PInf _ = PInf"
| "jmax _ PInf = PInf"
| "jmax NInf b = b"
| "jmax a NInf = a"

definition jmax3 :: "jsnum \<Rightarrow> jsnum \<Rightarrow> jsnum \<Rightarrow> jsnum" where
  "jmax3 a b c = jmax (jmax a b) c"

text \<open>
  An element read from a \<open>(number | null)[]\<close>: \<open>null\<close> is the undefined marker of the
  indicator series, \<open>undefined\<close> is what JavaScript reads outside the array.
\<close>

datatype cell = Undefined | Null | Val jsnum

text \<open>The number a cell stands for in arithmetic (\<open>null\<close> is 0, \<open>undefined\<close> is NaN).\<close>

fun to_num :: "cell \<Rightarrow> jsnum" where
  "to_num (Val v) = v"
| "to_num Null = Num 0"
| "to_num Undefined = NaN"

text \<open>\<open>xs[i]\<close> on an array of cells and on a \<open>number[]\<close>; never an exception.\<close>

definition nth_js :: "cell list \<Rightarrow> nat \<Rightarrow> cell" where
  "nth_js xs i = (if i < length xs then xs ! i else Undefined)"

definition rd :: "jsnum list \<Rightarrow> nat \<Rightarrow> jsnum" where
  "rd xs i = (if i < length xs then xs ! i else NaN)"

text \<open>\<open>xs[i] = v\<close>: writing at or past the end extends the array.\<close>

definition js_set :: "cell list \<Rightarrow> nat \<Rightarrow> cell \<Rightarrow> cell list" where
  "js_set xs i v =
     (if i < length xs then xs[i := v]
      else xs @ replicate (i - length xs) Undefined @ [v])"

text \<open>\<open>xs.slice(start, end)\<close> for \<open>0 \<le> start\<close>.\<close>

definition slice :: "'a list \<Rightarrow> nat \<Rightarrow> nat \<Rightarrow> 'a list" where
  "slice xs start stop = drop start (take stop xs)"

section \<open>Indicator library\<close>

text \<open>
  \<open>period\<close> is a whole number, zero included. The guard \<open>i < period - 1\<close> of the source
  is written \<open>i + 1 < period\<close>, which agrees with it at \<open>period = 0\<close> too.
\<close>

definition calculateSMA :: "jsnum list \<Rightarrow> nat \<Rightarrow> cell list" where
  "calculateSMA data period =
     map (\<lambda>i. if i + 1 < period then Null
               else Val (jdiv (foldl jadd (Num 0) (slice data (i + 1 - period) (i + 1)))
                              (Num (real period))))
         [0..<length data]"

text \<open>One turn of the loop of \<open>calculateEMA\<close>; the state is \<open>(ema, prevEma)\<close>.\<close>

definition ema_step ::
  "jsnum list \<Rightarrow> nat \<Rightarrow> cell list \<Rightarrow> cell list \<times> cell \<Rightarrow> nat \<Rightarrow> cell list \<times> cell" where
  "ema_step data period initialSmaValues st i =
     (let ema = fst st; prevEma = snd st; multiplier = jdiv (Num 2) (Num (real period + 1)) in
      if i + 1 < period then (ema @ [Null], prevEma)
      else if i + 1 = period then
        (let p = nth_js initialSmaValues i in (ema @ [p], p))
      else if prevEma \<noteq> Null then
        (let currentEma =
               jadd (jmul (jsub (rd data i) (to_num prevEma)) multiplier) (to_num prevEma)
         in (ema @ [Val currentEma], Val currentEma))
      else (ema @ [Null], prevEma))"

definition calculateEMA :: "jsnum list \<Rightarrow> nat \<Rightarrow> cell list" where
  "calculateEMA data period =
     fst (foldl (ema_step data period (calculateSMA data period)) ([], Null)
                [0..<length data])"

text \<open>
  \<open>Array(n)\<close> throws a RangeError for a negative \<open>n\<close>; it is the only expression of
  the library and of the engine that can throw.
\<close>

datatype error = RangeError

record MACD =
  macdLine :: "cell list"
  signalLine :: "cell list"
  histogram :: "cell list"

text \<open>
  The price columns handed to \<open>calculateMACD\<close>, \<open>calculateRSI\<close> and \<open>calculateATR\<close>
  are series of finite numbers; \<open>calculateSMA\<close> and \<open>calculateEMA\<close> also run on the
  computed MACD values and take any numbers.
\<close>

definition diff_line :: "cell list \<Rightarrow> cell list \<Rightarrow> nat \<Rightarrow> cell list" where
  "diff_line xs ys n =
     map (\<lambda>i. if nth_js xs i \<noteq> Null \<and> nth_js ys i \<noteq> Null
               then Val (jsub (to_num (nth_js xs i)) (to_num (nth_js ys i)))
               else Null)
         [0..<n]"

definition calculateMACD :: "real list \<Rightarrow> nat \<Rightarrow> nat \<Rightarrow> nat \<Rightarrow> error + MACD" where
  "calculateMACD data fastPeriod slowPeriod signalPeriod =
     (let emaFast = calculateEMA (map Num data) fastPeriod;
          emaSlow = calculateEMA (map Num data) slowPeriod;
          macdLine = diff_line emaFast emaSlow (length data);
          validMacdData = map to_num (filter (\<lambda>val. val \<noteq> Null) macdLine);
          signalLinePadded = calculateEMA validMacdData signalPeriod
      in if length data < length validMacdData then Inl RangeError
         else
           (let signalLine =
                  replicate (length data - length validMacdData) Null @ signalLinePadded;
                histogram = diff_line macdLine signalLine (length data)
            in Inr \<lparr>macdLine = macdLine, signalLine = signalLine, histogram = histogram\<rparr>))"

text \<open>\<open>rs\<close> and the RSI value computed from it (source lines 229-230 and 240-241).\<close>

definition rs_of :: "jsnum \<Rightarrow> jsnum \<Rightarrow> jsnum" where
  "rs_of avgGain avgLoss = (if jgt avgLoss (Num 0) then jdiv avgGain avgLoss else Num 0)"

definition rsi_of :: "jsnum \<Rightarrow> jsnum" where
  "rsi_of rs = jsub (Num 100) (jdiv (Num 100) (jadd (Num 1) rs))"

definition rsi_changes :: "real list \<Rightarrow> jsnum list" where
  "rsi_changes data =
     tl (map (\<lambda>i. if 0 < i then jsub (Num (data ! i)) (Num (data ! (i - 1))) else Num 0)
             [0..<length data])"

text \<open>The first loop: \<open>(initialGains, initialLosses)\<close> over the first \<open>period\<close> changes.\<close>

definition rsi_seed :: "jsnum list \<Rightarrow> nat \<Rightarrow> jsnum \<times> jsnum" where
  "rsi_seed changes period =
     foldl (\<lambda>st i. if jgt (rd changes i) (Num 0)
                    then (jadd (fst st) (rd changes i), snd st)
                    else (fst st, jsub (snd st) (rd changes i)))
           (Num 0, Num 0) [0..<period]"

text \<open>One turn of the smoothing loop; the state is \<open>(rsi, avgGain, avgLoss)\<close>.\<close>

definition rsi_step ::
  "nat \<Rightarrow> jsnum list \<Rightarrow> cell list \<times> jsnum \<times> jsnum \<Rightarrow> nat \<Rightarrow> cell list \<times> jsnum \<times> jsnum" where
  "rsi_step period changes st i =
     (let rsi = fst st; avgGain = fst (snd st); avgLoss = snd (snd st);
          change = rd changes i;
          gain = (if jgt change (Num 0) then change else Num 0);
          loss = (if jlt change (Num 0) then jneg change else Num 0);
          avgGain' = jdiv (jadd (jmul avgGain (Num (real period - 1))) gain) (Num (real period));
          avgLoss' = jdiv (jadd (jmul avgLoss (Num (real period - 1))) loss) (Num (real period))
      in (js_set rsi (i + 1) (Val (rsi_of (rs_of avgGain' avgLoss'))), avgGain', avgLoss'))"

text \<open>
  The state of \<open>calculateRSI\<close> when the smoothing loop has run for the indices below
  \<open>j\<close>: the seed state for \<open>j = period\<close>. Defined as the source is past its guard
  (\<open>data.length > period\<close>).
\<close>

definition rsi_run :: "real list \<Rightarrow> nat \<Rightarrow> nat \<Rightarrow> cell list \<times> jsnum \<times> jsnum" where
  "rsi_run data period j =
     (let changes = rsi_changes data;
          initial = rsi_seed changes period;
          avgGain = jdiv (fst initial) (Num (real period));
          avgLoss = jdiv (snd initial) (Num (real period));
          rsi = js_set (replicate (length data) Null) period
                  (Val (rsi_of (rs_of avgGain avgLoss)))
      in foldl (rsi_step period changes) (rsi, avgGain, avgLoss) [period..<j])"

definition calculateRSI :: "real list \<Rightarrow> nat \<Rightarrow> cell list" where
  "calculateRSI data period =
     (if length data \<le> period then replicate (length data) Null
      else fst (rsi_run data period (length (rsi_changes data))))"

text \<open>The true range at index \<open>i \<ge> 1\<close>; a read outside a column gives NaN.\<close>

definition true_range :: "real list \<Rightarrow> real list \<Rightarrow> real list \<Rightarrow> nat \<Rightarrow> jsnum" where
  "true_range high low close i =
     (let h = rd (map Num high) i; l = rd (map Num low) i; c = rd (map Num close) (i - 1)
      in jmax3 (jsub h l) (jabs (jsub h c)) (jabs (jsub l c)))"

definition atr_step ::
  "real list \<Rightarrow> real list \<Rightarrow> real list \<Rightarrow> nat \<Rightarrow> cell list \<Rightarrow> nat \<Rightarrow> cell list" where
  "atr_step high low close period atr i =
     js_set atr i
       (Val (jdiv (jadd (jmul (to_num (nth_js atr (i - 1))) (Num (real period - 1)))
                        (true_range high low close i))
                  (Num (real period))))"

definition calculateATR :: "real list \<Rightarrow> real list \<Rightarrow> real list \<Rightarrow> nat \<Rightarrow> cell list" where
  "calculateATR high low close period =
     (let atr = replicate (length high) Null in
      if length high < period then atr
      else
        (let tr_sum = foldl (\<lambda>s i. jadd s (true_range high low close i)) (Num 0)
                        [1..<period + 1];
             atr1 = js_set atr period (Val (jdiv tr_sum (Num (real period))))
         in foldl (atr_step high low close period) atr1 [period + 1..<length high]))"

section \<open>Signal engine\<close>

record MarketData =
  date :: int
  open' :: real
  high :: real
  low :: real
  close :: real
  volume :: real

datatype direction = BUY | SELL | HOLD

record IndicatorData = MACD +
  ema50 :: "cell list"
  ema200 :: "cell list"
  rsi :: "cell list"
  atr :: "cell list"

text \<open>
  \<open>sid\<close> is the \<open>id\<close> of the source, kept as the pair of the direction prefix and the
  timestamp that the template string joins with a dash. \<open>date\<close> is the bar's
  \<open>getTime()\<close>. \<open>IndicatorData\<close> extends the record of the three MACD lines with
  the other four series of the snapshot.
\<close>

record Signal =
  sid :: "string \<times> int"
  timestamp :: int
  direction :: direction
  currentPrice :: jsnum
  entryPrice :: "jsnum option"
  stopLoss :: "jsnum option"
  takeProfit :: "jsnum option"
  reasoning :: "string list"
  indicatorData :: IndicatorData

definition RISK_REWARD_RATIO :: jsnum where
  "RISK_REWARD_RATIO = Num (3 / 2)"

definition ATR_MULTIPLIER :: jsnum where
  "ATR_MULTIPLIER = Num 2"

text \<open>\<open>xs[len - 1]\<close>: index \<open>-1\<close> of the empty series reads \<open>undefined\<close>.\<close>

definition at_last :: "cell list \<Rightarrow> nat \<Rightarrow> cell" where
  "at_last xs len = (if len = 0 then Undefined else nth_js xs (len - 1))"

text \<open>\<open>c || d\<close> on a number or a missing value: 0, NaN, null and undefined are falsy.\<close>

fun js_or :: "cell \<Rightarrow> jsnum \<Rightarrow> jsnum" where
  "js_or (Val (Num a)) d = (if a = 0 then d else Num a)"
| "js_or (Val NaN) d = d"
| "js_or (Val v) d = v"
| "js_or Null d = d"
| "js_or Undefined d = d"

definition buy_reasoning :: "string list" where
  "buy_reasoning =
     [''Uptrend Confirmed: EMA (50) is above EMA (200).'',
      ''Bullish Price Action: Price is trading above the EMA (50).'',
      ''Bullish Momentum: MACD is positive and above its signal line.'',
      ''Strong Momentum: RSI is above 55, indicating strong buying pressure.'']"

definition sell_reasoning :: "string list" where
  "sell_reasoning =
     [''Downtrend Confirmed: EMA (50) is below EMA (200).'',
      ''Bearish Price Action: Price is trading below the EMA (50).'',
      ''Bearish Momentum: MACD is negative and below its signal line.'',
      ''Strong Momentum: RSI is below 45, indicating strong selling pressure.'']"

text \<open>
  The decision of \<open>analyzeData\<close> once the indicators are computed. \<open>base\<close> is
  \<open>baseSignal\<close>; the source gives it no direction and no reasoning, every return sets
  both.
\<close>

definition decide :: "Signal \<Rightarrow> nat \<Rightarrow> Signal" where
  "decide base len =
     (let ind = indicatorData base; currentPrice = currentPrice base; ts = timestamp base in
      if len < 200 then
        base\<lparr>direction := HOLD, reasoning := [''Not enough data points to generate signals.'']\<rparr>
      else
        (let currentEma50 = at_last (ema50 ind) len;
             currentEma200 = at_last (ema200 ind) len;
             currentMacd = at_last (macdLine ind) len;
             currentSignal = at_last (signalLine ind) len;
             currentRsi = at_last (rsi ind) len;
             currentAtr = at_last (atr ind) len;
             allDataAvailable =
               list_all (\<lambda>v. v \<noteq> Null \<and> v \<noteq> Undefined)
                 [Val currentPrice, currentEma50, currentEma200,
                  currentMacd, currentSignal, currentRsi, currentAtr]
         in if \<not> allDataAvailable then
              base\<lparr>direction := HOLD, reasoning := [''Indicators are still calculating.'']\<rparr>
            else
              (let isUptrend = jgt (to_num currentEma50) (to_num currentEma200);
                   isPriceActionBullish = jgt currentPrice (to_num currentEma50);
                   isMacdBullish = (jgt (to_num currentMacd) (to_num currentSignal)
                                    \<and> jgt (to_num currentMacd) (Num 0));
                   isRsiBullish = jgt (to_num currentRsi) (Num 55)
               in if isUptrend \<and> isPriceActionBullish \<and> isMacdBullish \<and> isRsiBullish then
                    (let entryPrice = currentPrice;
                         stopLoss = jsub entryPrice (jmul (to_num currentAtr) ATR_MULTIPLIER);
                         takeProfit = jadd entryPrice
                                        (jmul (jsub entryPrice stopLoss) RISK_REWARD_RATIO)
                     in base\<lparr>sid := (''BUY'', ts), direction := BUY,
                              entryPrice := Some entryPrice, stopLoss := Some stopLoss,
                              takeProfit := Some takeProfit, reasoning := buy_reasoning\<rparr>)
                  else
                    (let isDowntrend = jlt (to_num currentEma50) (to_num currentEma200);
                         isPriceActionBearish = jlt currentPrice (to_num currentEma50);
                         isMacdBearish = (jlt (to_num currentMacd) (to_num currentSignal)
                                          \<and> jlt (to_num currentMacd) (Num 0));
                         isRsiBearish = jlt (to_num currentRsi) (Num 45)
                     in if isDowntrend \<and> isPriceActionBearish \<and> isMacdBearish \<and> isRsiBearish
                        then
                          (let entryPrice = currentPrice;
                               stopLoss = jadd entryPrice
                                            (jmul (to_num currentAtr) ATR_MULTIPLIER);
                               takeProfit = jsub entryPrice
                                              (jmul (jsub stopLoss entryPrice) RISK_REWARD_RATIO)
                           in base\<lparr>sid := (''SELL'', ts), direction := SELL,
                                    entryPrice := Some entryPrice, stopLoss := Some stopLoss,
                                    takeProfit := Some takeProfit, reasoning := sell_reasoning\<rparr>)
                        else
                          base\<lparr>direction := HOLD,
                               reasoning :=
                                 [''No high-confluence signal conditions met. Waiting for alignment.'']\<rparr>))))"

text \<open>
  \<open>now\<close> is the value of \<open>Date.now()\<close>, used when the series is empty or its last
  timestamp is 0.
\<close>

definition analyzeData :: "int \<Rightarrow> MarketData list \<Rightarrow> error + Signal" where
  "analyzeData now data =
     (let closePrices = map close data;
          highPrices = map high data;
          lowPrices = map low data;
          len = length closePrices;
          currentPrice = js_or (at_last (map (\<lambda>c. Val (Num c)) closePrices) len) (Num 0);
          timestamp = (if len = 0 \<or> date (last data) = 0 then now else date (last data));
          ema50 = calculateEMA (map Num closePrices) 50;
          ema200 = calculateEMA (map Num closePrices) 200
      in case calculateMACD closePrices 12 26 9 of
           Inl e \<Rightarrow> Inl e
         | Inr m \<Rightarrow>
             (let rsi = calculateRSI closePrices 14;
                  atr = calculateATR highPrices lowPrices closePrices 14;
                  indicatorData =
                    \<lparr>macdLine = macdLine m, signalLine = signalLine m, histogram = histogram m,
                     ema50 = ema50, ema200 = ema200, rsi = rsi, atr = atr\<rparr>;
                  baseSignal =
                    \<lparr>sid = (''HOLD'', timestamp), timestamp = timestamp, direction = HOLD,
                     currentPrice = currentPrice, entryPrice = None, stopLoss = None,
                     takeProfit = None, reasoning = [], indicatorData = indicatorData\<rparr>
              in Inr (decide baseSignal len)))"

section \<open>Intermediate states of the loops\<close>

text \<open>The state \<open>(ema, prevEma)\<close> of \<open>calculateEMA\<close> after the turns for the indices below \<open>k\<close>.\<close>

definition ema_state :: "jsnum list \<Rightarrow> nat \<Rightarrow> nat \<Rightarrow> cell list \<times> cell" where
  "ema_state data period k =
     foldl (ema_step data period (calculateSMA data period)) ([], Null) [0..<k]"

text \<open>
  The MACD line of \<open>calculateMACD\<close> and the number of undefined markers it starts with.
\<close>

definition macd_line :: "real list \<Rightarrow> nat \<Rightarrow> nat \<Rightarrow> cell list" where
  "macd_line data fastPeriod slowPeriod =
     diff_line (calculateEMA (map Num data) fastPeriod) (calculateEMA (map Num data) slowPeriod)
       (length data)"

definition macd_warmup :: "nat \<Rightarrow> nat \<Rightarrow> nat \<Rightarrow> nat" where
  "macd_warmup n fastPeriod slowPeriod =
     (if fastPeriod = 0 \<or> slowPeriod = 0 then n else min n (max fastPeriod slowPeriod - 1))"

text \<open>
  Invariants of \<open>calculateRSI\<close>: a finite number that is not negative; the two running
  averages (both NaN when \<open>period = 0\<close>, where the seed is \<open>0 / 0\<close>); a cell holding
  a finite number between 0 and 100.
\<close>

definition nonneg :: "jsnum \<Rightarrow> bool" where
  "nonneg x = (case x of Num a \<Rightarrow> 0 \<le> a | _ \<Rightarrow> False)"

definition avgs_ok :: "nat \<Rightarrow> jsnum \<Rightarrow> jsnum \<Rightarrow> bool" where
  "avgs_ok period g l =
     (if period = 0 then g = NaN \<and> l = NaN else nonneg g \<and> nonneg l)"

definition percent :: "cell \<Rightarrow> bool" where
  "percent c = (case c of Val (Num r) \<Rightarrow> 0 \<le> r \<and> r \<le> 100 | _ \<Rightarrow> False)"

text \<open>
  The seed of \<open>calculateATR\<close> (the mean of the true ranges at the indices 1 to
  \<open>period\<close>), the array when the smoothing loop has run for the indices below \<open>j\<close>, and
  a cell holding a finite number that is not negative.
\<close>

definition atr_seed :: "real list \<Rightarrow> real list \<Rightarrow> real list \<Rightarrow> nat \<Rightarrow> jsnum" where
  "atr_seed hs ls cs period =
     jdiv (foldl (\<lambda>s i. jadd s (true_range hs ls cs i)) (Num 0) [1..<period + 1])
          (Num (real period))"

definition atr_run :: "real list \<Rightarrow> real list \<Rightarrow> real list \<Rightarrow> nat \<Rightarrow> nat \<Rightarrow> cell list" where
  "atr_run hs ls cs period j =
     foldl (atr_step hs ls cs period)
       (js_set (replicate (length hs) Null) period (Val (atr_seed hs ls cs period)))
       [period + 1..<j]"

definition nn_cell :: "cell \<Rightarrow> bool" where
  "nn_cell c = (case c of Val (Num r) \<Rightarrow> 0 \<le> r | _ \<Rightarrow> False)"

text \<open>
  The indicator snapshot and the \<open>baseSignal\<close> that \<open>analyzeData\<close> builds, with the
  result of \<open>calculateMACD\<close> written out.
\<close>

definition snapshot :: "MarketData list \<Rightarrow> IndicatorData" where
  "snapshot data =
     \<lparr>macdLine = macd_line (map close data) 12 26,
      signalLine = replicate (macd_warmup (length data) 12 26) Null
                   @ calculateEMA (map to_num (drop (macd_warmup (length data) 12 26)
                                                 (macd_line (map close data) 12 26))) 9,
      histogram = diff_line (macd_line (map close data) 12 26)
                    (replicate (macd_warmup (length data) 12 26) Null
                     @ calculateEMA (map to_num (drop (macd_warmup (length data) 12 26)
                                                   (macd_line (map close data) 12 26))) 9)
                    (length data),
      ema50 = calculateEMA (map Num (map close data)) 50,
      ema200 = calculateEMA (map Num (map close data)) 200,
      rsi = calculateRSI (map close data) 14,
      atr = calculateATR (map high data) (map low data) (map close data) 14\<rparr>"

definition base_signal :: "int \<Rightarrow> MarketData list \<Rightarrow> Signal" where
  "base_signal now data =
     (let ts = (if length data = 0 \<or> date (last data) = 0 then now else date (last data)) in
      \<lparr>sid = (''HOLD'', ts), timestamp = ts, direction = HOLD,
       currentPrice = js_or (at_last (map (\<lambda>c. Val (Num c)) (map close data)) (length data)) (Num 0),
       entryPrice = None, stopLoss = None, takeProfit = None, reasoning = [],
       indicatorData = snapshot data\<rparr>)"

text \<open>
  A series of 200 bars on which the BUY rule fires: 198 closes at 100, then 99 and 102,
  each bar with its high and low at its close.
\<close>

definition buy_closes :: "real list" where
  "buy_closes = replicate 198 100 @ [99, 102]"

definition buy_bars :: "MarketData list" where
  "buy_bars = map (\<lambda>c. \<lparr>date = 1, open' = c, high = c, low = c, close = c, volume = 0\<rparr>) buy_closes"

section \<open>Arrays\<close>

lemma nth_js_in [simp]: "i < length xs \<Longrightarrow> nth_js xs i = xs ! i"
  by (simp add: nth_js_def)

lemma nth_js_out [simp]: "length xs \<le> i \<Longrightarrow> nth_js xs i = Undefined"
  by (simp add: nth_js_def)

lemma length_js_set: "length (js_set xs i v) = max (length xs) (i + 1)"
  by (simp add: js_set_def)

lemma js_set_in: "i < length xs \<Longrightarrow> js_set xs i v = xs[i := v]"
  by (simp add: js_set_def)

lemma sma_nth:
  "i < length data \<Longrightarrow> calculateSMA data period ! i =
     (if i + 1 < period then Null
      else Val (jdiv (foldl jadd (Num 0) (slice data (i + 1 - period) (i + 1)))
                     (Num (real period))))"
  by (simp add: calculateSMA_def)

section \<open>Lengths of the indicator series\<close>

lemma length_calculateSMA: "length (calculateSMA data period) = length data"
  by (simp add: calculateSMA_def)

section \<open>Definedness of the EMA\<close>

lemma ema_state_0: "ema_state data period 0 = ([], Null)"
  by (simp add: ema_state_def)

lemma ema_state_Suc:
  "ema_state data period (Suc k) =
     ema_step data period (calculateSMA data period) (ema_state data period k) k"
  by (simp add: ema_state_def)

lemma ema_state_inv:
  "k \<le> length data \<Longrightarrow>
     length (fst (ema_state data period k)) = k \<and>
     (\<forall>i<k. (fst (ema_state data period k) ! i = Null) = (period = 0 \<or> i + 1 < period)) \<and>
     (\<forall>i<k. fst (ema_state data period k) ! i \<noteq> Undefined) \<and>
     (snd (ema_state data period k) = Null) = (period = 0 \<or> k < period) \<and>
     snd (ema_state data period k) \<noteq> Undefined"
proof (induction k)
  case 0
  show ?case by (auto simp: ema_state_0)
next
  case (Suc k)
  then have k: "k < length data" and IH: "length (fst (ema_state data period k)) = k"
    "\<forall>i<k. (fst (ema_state data period k) ! i = Null) = (period = 0 \<or> i + 1 < period)"
    "\<forall>i<k. fst (ema_state data period k) ! i \<noteq> Undefined"
    "(snd (ema_state data period k) = Null) = (period = 0 \<or> k < period)"
    "snd (ema_state data period k) \<noteq> Undefined"
    by simp_all
  obtain ema prev where st: "ema_state data period k = (ema, prev)"
    by (cases "ema_state data period k")
  from IH st have len: "length ema = k" by simp
  consider (a) "k + 1 < period" | (b) "k + 1 = period" | (c) "period < k + 1" by linarith
  then show ?case
  proof cases
    case a
    then show ?thesis using IH st len
      by (auto simp: ema_state_Suc ema_step_def Let_def nth_append less_Suc_eq)
  next
    case b
    then have "nth_js (calculateSMA data period) k \<noteq> Null" 
      "nth_js (calculateSMA data period) k \<noteq> Undefined" using k
      by (simp_all add: length_calculateSMA sma_nth)
    then show ?thesis using IH st len b
      by (auto simp: ema_state_Suc ema_step_def Let_def nth_append less_Suc_eq)
  next
    case c
    then show ?thesis using IH st len
      by (auto simp: ema_state_Suc ema_step_def Let_def nth_append less_Suc_eq)
  qed
qed

lemma calculateEMA_state: "calculateEMA data period = fst (ema_state data period (length data))"
  by (simp add: calculateEMA_def ema_state_def)

lemma length_calculateEMA: "length (calculateEMA data period) = length data"
  using ema_state_inv[of "length data" data period] by (simp add: calculateEMA_state)

lemma calculateEMA_Null_iff:
  "i < length data \<Longrightarrow> (calculateEMA data period ! i = Null) = (period = 0 \<or> i + 1 < period)"
  using ema_state_inv[of "length data" data period] by (simp add: calculateEMA_state)

lemma calculateEMA_not_Undefined:
  "i < length data \<Longrightarrow> calculateEMA data period ! i \<noteq> Undefined"
  using ema_state_inv[of "length data" data period] by (simp add: calculateEMA_state)

text \<open>
  C7. Once the EMA is defined at an index it is defined at every later index of the
  series, and every index before the warm-up index \<open>period - 1\<close> holds the undefined
  marker.
\<close>

theorem C7_ema_definedness:
  "(\<forall>i j. i < j \<and> j < length data \<and> nth_js (calculateEMA data period) i \<noteq> Null
          \<longrightarrow> nth_js (calculateEMA data period) j \<noteq> Null
              \<and> nth_js (calculateEMA data period) j \<noteq> Undefined) \<and>
   (\<forall>i. i < length data \<and> int i < int period - 1
        \<longrightarrow> nth_js (calculateEMA data period) i = Null)"
  by (auto simp: length_calculateEMA calculateEMA_Null_iff calculateEMA_not_Undefined)

theorem C7_ema_definedness_witness:
  "nth_js (calculateEMA [Num 1, Num 2, Num 3] 2) 1 \<noteq> Null \<and>
   nth_js (calculateEMA [Num 1, Num 2, Num 3] 2) 2 \<noteq> Null \<and>
   nth_js (calculateEMA [Num 1, Num 2, Num 3] 2) 0 = Null"
proof -
  have h: "nth_js (calculateEMA [Num 1, Num 2, Num 3] 2) 1 \<noteq> Null"
    by (simp add: length_calculateEMA calculateEMA_Null_iff)
  have "(1::nat) < 2 \<and> 2 < length [Num 1, Num 2, Num 3]
        \<and> nth_js (calculateEMA [Num 1, Num 2, Num 3] 2) 1 \<noteq> Null"
    using h by simp
  moreover have "(0::nat) < length [Num 1, Num 2, Num 3] \<and> int 0 < int 2 - 1"
    by simp
  ultimately show ?thesis
    using C7_ema_definedness [of "[Num 1, Num 2, Num 3]" 2] h by blast
qed

section \<open>The MACD lines\<close>

lemma length_diff_line: "length (diff_line xs ys n) = n"
  by (simp add: diff_line_def)

lemma diff_line_nth:
  "i < n \<Longrightarrow> diff_line xs ys n ! i =
     (if nth_js xs i \<noteq> Null \<and> nth_js ys i \<noteq> Null
      then Val (jsub (to_num (nth_js xs i)) (to_num (nth_js ys i))) else Null)"
  by (simp add: diff_line_def)

lemma null_prefix_take:
  assumes "\<forall>i<length xs. (xs ! i = Null) = (i < k)"
  shows "take k xs = replicate (min k (length xs)) Null"
proof (rule nth_equalityI)
  show "length (take k xs) = length (replicate (min k (length xs)) Null)" by (simp add: min.commute)
next
  fix i assume "i < length (take k xs)"
  then show "take k xs ! i = replicate (min k (length xs)) Null ! i"
    using assms by simp
qed

lemma null_prefix_filter:
  assumes "\<forall>i<length xs. (xs ! i = Null) = (i < k)"
  shows "filter (\<lambda>v. v \<noteq> Null) xs = drop k xs"
proof -
  have a: "filter (\<lambda>v. v \<noteq> Null) (take k xs) = []"
    using null_prefix_take[OF assms] by simp
  have "\<forall>x\<in>set (drop k xs). x \<noteq> Null"
  proof
    fix x assume "x \<in> set (drop k xs)"
    then obtain j where j: "j < length (drop k xs)" "x = drop k xs ! j"
      by (auto simp: in_set_conv_nth)
    then have "x = xs ! (k + j)" "k + j < length xs" by auto
    with assms show "x \<noteq> Null" by auto
  qed
  then have b: "filter (\<lambda>v. v \<noteq> Null) (drop k xs) = drop k xs"
    by (simp add: filter_id_conv)
  have "filter (\<lambda>v. v \<noteq> Null) xs =
        filter (\<lambda>v. v \<noteq> Null) (take k xs) @ filter (\<lambda>v. v \<noteq> Null) (drop k xs)"
    by (metis append_take_drop_id filter_append)
  with a b show ?thesis by simp
qed

lemma macd_line_Null_iff:
  "i < length data \<Longrightarrow>
     (macd_line data f s ! i = Null) = (i < macd_warmup (length data) f s)"
  by (auto simp: macd_line_def macd_warmup_def diff_line_nth length_calculateEMA calculateEMA_Null_iff)

lemma macd_line_cases:
  "i < length data \<Longrightarrow> macd_line data f s ! i = Null \<or> (\<exists>v. macd_line data f s ! i = Val v)"
  by (simp add: macd_line_def diff_line_nth)

lemma length_macd_line: "length (macd_line data f s) = length data"
  by (simp add: macd_line_def length_diff_line)

lemma macd_warmup_le: "macd_warmup n f s \<le> n"
  by (simp add: macd_warmup_def)

lemma macd_valid:
  "filter (\<lambda>v. v \<noteq> Null) (macd_line data f s) = drop (macd_warmup (length data) f s) (macd_line data f s)"
  by (rule null_prefix_filter) (simp add: length_macd_line macd_line_Null_iff)

lemma macd_prefix:
  "take (macd_warmup (length data) f s) (macd_line data f s) = replicate (macd_warmup (length data) f s) Null"
  using null_prefix_take[of "macd_line data f s" "macd_warmup (length data) f s"]
  by (simp add: length_macd_line macd_line_Null_iff macd_warmup_le min.absorb1)

lemma calculateMACD_eq:
  "calculateMACD data f s sp =
     Inr \<lparr>macdLine = macd_line data f s,
          signalLine = replicate (macd_warmup (length data) f s) Null
                       @ calculateEMA (map to_num (drop (macd_warmup (length data) f s) (macd_line data f s))) sp,
          histogram = diff_line (macd_line data f s)
                        (replicate (macd_warmup (length data) f s) Null
                         @ calculateEMA (map to_num (drop (macd_warmup (length data) f s) (macd_line data f s))) sp)
                        (length data)\<rparr>"
proof -
  have "length data - (length data - macd_warmup (length data) f s) = macd_warmup (length data) f s"
    using macd_warmup_le[of "length data" f s] by simp
  then show ?thesis
    unfolding calculateMACD_def Let_def macd_line_def[symmetric] macd_valid
    by (simp add: length_macd_line)
qed

lemma length_signal:
  "length (replicate (macd_warmup (length data) f s) Null
           @ calculateEMA (map to_num (drop (macd_warmup (length data) f s) (macd_line data f s))) sp)
   = length data"
  using macd_warmup_le[of "length data" f s] by (simp add: length_calculateEMA length_macd_line)

lemma signal_Null_iff:
  assumes "j < length data"
  shows "((replicate (macd_warmup (length data) f s) Null
           @ calculateEMA (map to_num (drop (macd_warmup (length data) f s) (macd_line data f s))) sp) ! j = Null)
         = (sp = 0 \<or> j + 1 < macd_warmup (length data) f s + sp)"
  using assms macd_warmup_le[of "length data" f s]
  by (auto simp: nth_append length_calculateEMA length_macd_line calculateEMA_Null_iff)

lemma macd_warmup_default: "macd_warmup n 12 26 = min n 25"
  by (simp add: macd_warmup_def)

text \<open>
  C5. With the default periods, the MACD line is \<open>k\<close> undefined markers followed by
  defined values only (\<open>k\<close> is 25, or the length of a shorter series), and the signal
  line is the 9-period EMA of that defined suffix behind \<open>k\<close> undefined markers: it has
  the length of the series and its own warm-up of 8 indices starts at \<open>k\<close>.
\<close>

theorem C5_signal_line:
  "\<exists>m. calculateMACD data 12 26 9 = Inr m \<and>
     (let k = min (length data) 25 in
        take k (macdLine m) = replicate k Null \<and>
        (\<forall>i. k \<le> i \<and> i < length data \<longrightarrow> (\<exists>v. macdLine m ! i = Val v)) \<and>
        signalLine m = replicate k Null @ calculateEMA (map to_num (drop k (macdLine m))) 9 \<and>
        length (signalLine m) = length data \<and>
        (\<forall>j. j < length data \<longrightarrow> (signalLine m ! j = Null) = (j < k + 8)))"
proof -
  let ?k = "min (length data) 25"
  have k: "macd_warmup (length data) 12 26 = ?k" by (rule macd_warmup_default)
  have a: "take ?k (macd_line data 12 26) = replicate ?k Null"
    using macd_prefix[of data 12 26] by (simp only: k)
  have b: "\<forall>i. ?k \<le> i \<and> i < length data \<longrightarrow> (\<exists>v. macd_line data 12 26 ! i = Val v)"
  proof (intro allI impI)
    fix i assume i: "?k \<le> i \<and> i < length data"
    then have "\<not> i < ?k" by linarith
    then have "macd_line data 12 26 ! i \<noteq> Null"
      using macd_line_Null_iff[of i data 12 26] i unfolding k by blast
    with macd_line_cases[of i data 12 26] i show "\<exists>v. macd_line data 12 26 ! i = Val v" by blast
  qed
  have c: "length (replicate ?k Null @ calculateEMA (map to_num (drop ?k (macd_line data 12 26))) 9) = length data"
    using length_signal[of data 12 26 9] by (simp only: k)
  have d: "\<forall>j. j < length data \<longrightarrow>
      ((replicate ?k Null @ calculateEMA (map to_num (drop ?k (macd_line data 12 26))) 9) ! j = Null) = (j < ?k + 8)"
  proof (intro allI impI)
    fix j assume "j < length data"
    from signal_Null_iff[OF this, of 12 26 9] show
      "((replicate ?k Null @ calculateEMA (map to_num (drop ?k (macd_line data 12 26))) 9) ! j = Null) = (j < ?k + 8)"
      unfolding k by auto
  qed
  show ?thesis
    unfolding calculateMACD_eq k Let_def using a b c d by simp
qed

theorem C5_signal_line_witness:
  "\<exists>m. calculateMACD (replicate 40 1) 12 26 9 = Inr m \<and>
     take 25 (macdLine m) = replicate 25 Null \<and>
     signalLine m = replicate 25 Null @ calculateEMA (map to_num (drop 25 (macdLine m))) 9 \<and>
     length (signalLine m) = 40 \<and>
     signalLine m ! 32 = Null \<and> signalLine m ! 33 \<noteq> Null"
proof -
  obtain m where m: "calculateMACD (replicate 40 1) 12 26 9 = Inr m"
    and a: "take 25 (macdLine m) = replicate 25 Null"
    and b: "signalLine m = replicate 25 Null @ calculateEMA (map to_num (drop 25 (macdLine m))) 9"
    and c: "length (signalLine m) = 40"
    and d: "\<forall>j. j < 40 \<longrightarrow> (signalLine m ! j = Null) = (j < 33)"
    using C5_signal_line [of "replicate 40 1"] by (auto simp: Let_def)
  from d have "signalLine m ! 32 = Null" "signalLine m ! 33 \<noteq> Null" by simp_all
  with m a b c show ?thesis by blast
qed

section \<open>The RSI\<close>

lemma nonneg_Num [simp]: "nonneg (Num a) = (0 \<le> a)"
  by (simp add: nonneg_def)

lemma nonnegE: "nonneg x \<Longrightarrow> (\<And>a. x = Num a \<Longrightarrow> 0 \<le> a \<Longrightarrow> P) \<Longrightarrow> P"
  by (cases x) (simp_all add: nonneg_def)

lemma length_rsi_changes: "length (rsi_changes data) = length data - 1"
  by (simp add: rsi_changes_def)

lemma rsi_changes_nth:
  "i + 1 < length data \<Longrightarrow> rd (rsi_changes data) i = Num (data ! (i + 1) - data ! i)"
  by (simp add: rd_def rsi_changes_def nth_tl jsub_def)

lemma rsi_seed_fold_nonneg:
  "nonneg (fst st) \<Longrightarrow> nonneg (snd st) \<Longrightarrow> \<forall>i\<in>set is. i + 1 < length data \<Longrightarrow>
   nonneg (fst (foldl (\<lambda>st i. if jgt (rd (rsi_changes data) i) (Num 0)
                    then (jadd (fst st) (rd (rsi_changes data) i), snd st)
                    else (fst st, jsub (snd st) (rd (rsi_changes data) i))) st is)) \<and>
   nonneg (snd (foldl (\<lambda>st i. if jgt (rd (rsi_changes data) i) (Num 0)
                    then (jadd (fst st) (rd (rsi_changes data) i), snd st)
                    else (fst st, jsub (snd st) (rd (rsi_changes data) i))) st is))"
proof (induction "is" arbitrary: st)
  case Nil
  then show ?case by simp
next
  case (Cons i "is")
  from Cons.prems obtain a b where ab: "fst st = Num a" "0 \<le> a" "snd st = Num b" "0 \<le> b"
    by (auto elim!: nonnegE)
  have i: "rd (rsi_changes data) i = Num (data ! (i + 1) - data ! i)"
    using Cons.prems by (simp add: rsi_changes_nth)
  show ?case
    unfolding foldl_Cons
    by (rule Cons.IH) (use Cons.prems ab i in \<open>auto simp: jsub_def\<close>)
qed

lemma rsi_seed_nonneg:
  "period < length data \<Longrightarrow>
   nonneg (fst (rsi_seed (rsi_changes data) period)) \<and>
   nonneg (snd (rsi_seed (rsi_changes data) period))"
  unfolding rsi_seed_def by (rule rsi_seed_fold_nonneg) auto

lemma rsi_seed_0: "rsi_seed changes 0 = (Num 0, Num 0)"
  by (simp add: rsi_seed_def)

lemma percent_rsi_of: "avgs_ok period g l \<Longrightarrow> percent (Val (rsi_of (rs_of g l)))"
proof (cases "period = 0")
  case True
  assume "avgs_ok period g l"
  with True show ?thesis by (simp add: avgs_ok_def rs_of_def rsi_of_def jsub_def percent_def)
next
  case False
  assume "avgs_ok period g l"
  with False obtain a b where ab: "g = Num a" "0 \<le> a" "l = Num b" "0 \<le> b"
    by (auto simp: avgs_ok_def elim!: nonnegE)
  show ?thesis
  proof (cases "0 < b")
    case True
    then have q: "0 \<le> a / b" using ab by simp
    then have "1 + a / b \<noteq> 0" "0 \<le> 100 / (1 + a / b)" by auto
    moreover have "100 / (1 + a / b) \<le> 100 / 1"
      using q by (intro divide_left_mono) auto
    ultimately show ?thesis using ab True
      by (simp add: rs_of_def rsi_of_def jsub_def percent_def)
  next
    case False
    then show ?thesis using ab by (simp add: rs_of_def rsi_of_def jsub_def percent_def)
  qed
qed

lemma rsi_run_base:
  "rsi_run data period period =
     (js_set (replicate (length data) Null) period
        (Val (rsi_of (rs_of (jdiv (fst (rsi_seed (rsi_changes data) period)) (Num (real period)))
                            (jdiv (snd (rsi_seed (rsi_changes data) period)) (Num (real period)))))),
      jdiv (fst (rsi_seed (rsi_changes data) period)) (Num (real period)),
      jdiv (snd (rsi_seed (rsi_changes data) period)) (Num (real period)))"
  by (simp add: rsi_run_def Let_def)

lemma rsi_run_Suc:
  "period \<le> j \<Longrightarrow>
   rsi_run data period (Suc j) = rsi_step period (rsi_changes data) (rsi_run data period j) j"
  by (simp add: rsi_run_def Let_def)

lemma avgs_ok_base:
  "period < length data \<Longrightarrow>
   avgs_ok period (jdiv (fst (rsi_seed (rsi_changes data) period)) (Num (real period)))
                  (jdiv (snd (rsi_seed (rsi_changes data) period)) (Num (real period)))"
proof (cases "period = 0")
  case True
  then show ?thesis by (simp add: avgs_ok_def rsi_seed_0)
next
  case False
  assume "period < length data"
  from rsi_seed_nonneg[OF this] obtain a b where
    "fst (rsi_seed (rsi_changes data) period) = Num a" "0 \<le> a"
    "snd (rsi_seed (rsi_changes data) period) = Num b" "0 \<le> b"
    by (auto elim!: nonnegE)
  with False show ?thesis by (simp add: avgs_ok_def)
qed

lemma avgs_ok_step:
  assumes "avgs_ok period g l" "j + 1 < length data"
  shows "avgs_ok period (fst (snd (rsi_step period (rsi_changes data) (r, g, l) j)))
                        (snd (snd (rsi_step period (rsi_changes data) (r, g, l) j)))"
proof (cases "period = 0")
  case True
  with assms show ?thesis by (simp add: avgs_ok_def rsi_step_def Let_def)
next
  case False
  with assms obtain a b where ab: "g = Num a" "0 \<le> a" "l = Num b" "0 \<le> b"
    by (auto simp: avgs_ok_def elim!: nonnegE)
  have c: "rd (rsi_changes data) j = Num (data ! (j + 1) - data ! j)"
    using assms by (simp add: rsi_changes_nth)
  have p: "0 \<le> real period - 1" using False by simp
  show ?thesis using False ab c p
    by (auto simp: avgs_ok_def rsi_step_def Let_def jlt_def)
qed

lemma rsi_step_fst:
  "fst (rsi_step period changes (r, g, l) j) =
     js_set r (j + 1)
       (Val (rsi_of (rs_of (fst (snd (rsi_step period changes (r, g, l) j)))
                           (snd (snd (rsi_step period changes (r, g, l) j))))))"
  by (simp add: rsi_step_def Let_def)

lemma rsi_run_inv:
  assumes "period < length data"
  shows "period \<le> j \<Longrightarrow> j < length data \<Longrightarrow>
     (case rsi_run data period j of (r, g, l) \<Rightarrow>
        length r = length data \<and> avgs_ok period g l \<and>
        r ! j = Val (rsi_of (rs_of g l)) \<and>
        (\<forall>i<length data. if i < period \<or> j < i then r ! i = Null else percent (r ! i)))"
proof (induction j)
  case 0
  then have p: "period = 0" by simp
  from avgs_ok_base[OF assms] percent_rsi_of[OF avgs_ok_base[OF assms]] assms
  show ?case unfolding p
    by (auto simp: rsi_run_base js_set_in nth_list_update)
next
  case (Suc j)
  show ?case
  proof (cases "period = Suc j")
    case True
    from avgs_ok_base[OF assms] percent_rsi_of[OF avgs_ok_base[OF assms]] assms
    show ?thesis unfolding True[symmetric]
      by (auto simp: rsi_run_base js_set_in nth_list_update)
  next
    case False
    with Suc.prems have pj: "period \<le> j" "j < length data" by simp_all
    obtain r g l where st: "rsi_run data period j = (r, g, l)"
      by (cases "rsi_run data period j") auto
    from Suc.IH[OF pj] st have IH: "length r = length data" "avgs_ok period g l"
      "\<forall>i<length data. if i < period \<or> j < i then r ! i = Null else percent (r ! i)"
      by simp_all
    from Suc.prems have j1: "j + 1 < length data" by simp
    let ?st = "rsi_step period (rsi_changes data) (r, g, l) j"
    obtain r' g' l' where st': "?st = (r', g', l')" by (cases ?st) auto
    have ok: "avgs_ok period g' l'" using avgs_ok_step[OF IH(2) j1, of r] st' by simp
    have r': "r' = r[Suc j := Val (rsi_of (rs_of g' l'))]"
      using rsi_step_fst[of period "rsi_changes data" r g l j] st' j1 IH(1)
      by (simp add: js_set_in)
    have "rsi_run data period (Suc j) = (r', g', l')"
      using rsi_run_Suc[OF pj(1)] st st' by simp
    moreover have "length r' = length data" using r' IH(1) by simp
    moreover have "r' ! Suc j = Val (rsi_of (rs_of g' l'))" using r' IH(1) j1 by simp
    moreover have "\<forall>i<length data. if i < period \<or> Suc j < i then r' ! i = Null else percent (r' ! i)"
    proof (intro allI impI)
      fix i assume i: "i < length data"
      show "if i < period \<or> Suc j < i then r' ! i = Null else percent (r' ! i)"
      proof (cases "i = Suc j")
        case True
        then show ?thesis using r' IH(1) i percent_rsi_of[OF ok] pj(1) by simp
      next
        case False
        then have "r' ! i = r ! i" using r' by simp
        then show ?thesis using IH(3) i False by auto
      qed
    qed
    ultimately show ?thesis using ok by simp
  qed
qed

lemma rsi_run_stable:
  assumes "period < length data" "period \<le> j"
  shows "j \<le> k \<Longrightarrow> k < length data \<Longrightarrow>
     fst (rsi_run data period k) ! j = fst (rsi_run data period j) ! j"
proof (induction k)
  case 0
  then show ?case by simp
next
  case (Suc k)
  show ?case
  proof (cases "j = Suc k")
    case True
    then show ?thesis by simp
  next
    case False
    with Suc.prems have jk: "j \<le> k" "k < length data" by simp_all
    then have pk: "period \<le> k" using assms by simp
    obtain r g l where st: "rsi_run data period k = (r, g, l)"
      by (cases "rsi_run data period k") auto
    from rsi_run_inv[OF assms(1) pk jk(2)] st have len: "length r = length data" by simp
    have "fst (rsi_run data period (Suc k)) = js_set r (k + 1)
       (Val (rsi_of (rs_of (fst (snd (rsi_step period (rsi_changes data) (r, g, l) k)))
                           (snd (snd (rsi_step period (rsi_changes data) (r, g, l) k))))))"
      using rsi_run_Suc[OF pk] st rsi_step_fst by simp
    then have "fst (rsi_run data period (Suc k)) ! j = r ! j"
      using len Suc.prems jk by (simp add: js_set_in)
    then show ?thesis using Suc.IH[OF jk] st by simp
  qed
qed

lemma calculateRSI_short:
  "length data \<le> period \<Longrightarrow> calculateRSI data period = replicate (length data) Null"
  by (simp add: calculateRSI_def)

lemma calculateRSI_long:
  "period < length data \<Longrightarrow> calculateRSI data period = fst (rsi_run data period (length data - 1))"
  by (simp add: calculateRSI_def length_rsi_changes)

lemma length_calculateRSI: "length (calculateRSI data period) = length data"
proof (cases "period < length data")
  case True
  then have "period \<le> length data - 1" "length data - 1 < length data" by simp_all
  from rsi_run_inv[OF True this] show ?thesis
    by (simp add: calculateRSI_long[OF True] split: prod.splits)
next
  case False
  then show ?thesis by (simp add: calculateRSI_short)
qed

lemma calculateRSI_nth:
  assumes "i < length data"
  shows "if length data \<le> period \<or> i < period then calculateRSI data period ! i = Null
         else percent (calculateRSI data period ! i)"
proof (cases "period < length data")
  case True
  then have "period \<le> length data - 1" "length data - 1 < length data" by simp_all
  from rsi_run_inv[OF True this] assms True show ?thesis
    by (auto simp: calculateRSI_long[OF True] split: prod.splits)
next
  case False
  then show ?thesis using assms by (simp add: calculateRSI_short)
qed



text \<open>
  C1, as the code has it. At every step of \<open>calculateRSI\<close> where the running average
  loss is exactly 0, \<open>rs\<close> is 0 and the RSI value written at that index is
  \<open>100 - 100 / (1 + 0) = 0\<close>, not 100. The step for index \<open>j\<close> is the seed for
  \<open>j = period\<close> and the smoothing turn \<open>i = j - 1\<close> after it.
\<close>

theorem C1_rsi_zero_loss:
  assumes "period < length data" "period \<le> j" "j < length data"
    and "snd (snd (rsi_run data period j)) = Num 0"
  shows "rs_of (fst (snd (rsi_run data period j))) (snd (snd (rsi_run data period j))) = Num 0 \<and>
         calculateRSI data period ! j = Val (Num 0)"
proof -
  obtain r g l where st: "rsi_run data period j = (r, g, l)"
    by (cases "rsi_run data period j") auto
  with assms have l: "l = Num 0" by simp
  have rs: "rs_of g l = Num 0" by (simp add: l rs_of_def)
  from rsi_run_inv[OF assms(1,2,3)] st have "r ! j = Val (rsi_of (rs_of g l))" by simp
  then have "r ! j = Val (Num 0)" by (simp add: rs rsi_of_def jsub_def)
  moreover have "calculateRSI data period ! j = r ! j"
    using rsi_run_stable[OF assms(1,2), of "length data - 1"] assms st
    by (simp add: calculateRSI_long)
  ultimately show ?thesis using st rs by simp
qed

theorem C1_rsi_zero_loss_witness:
  "snd (snd (rsi_run [1, 2, 4, 7] 2 3)) = Num 0 \<and>
   rs_of (fst (snd (rsi_run [1, 2, 4, 7] 2 3))) (snd (snd (rsi_run [1, 2, 4, 7] 2 3))) = Num 0 \<and>
   calculateRSI [1, 2, 4, 7] 2 ! 3 = Val (Num 0)"
proof -
  have h: "snd (snd (rsi_run [1, 2, 4, 7] 2 3)) = Num 0"
    by code_simp
  have "(2::nat) < length [1, 2, 4, 7::real]" "(2::nat) \<le> 3" "(3::nat) < length [1, 2, 4, 7::real]"
    by simp_all
  from C1_rsi_zero_loss [OF this h] h show ?thesis by simp
qed

text \<open>
  The claim as the specification words it fails on a series that only rises: the average
  loss of the seed is 0 and the RSI at index 2 is 0.
\<close>

theorem C1_rsi_100_counterexample:
  "snd (snd (rsi_run [1, 2, 3] 2 2)) = Num 0 \<and>
   calculateRSI [1, 2, 3] 2 ! 2 = Val (Num 0) \<and>
   calculateRSI [1, 2, 3] 2 ! 2 \<noteq> Val (Num 100)"
  by code_simp

section \<open>The ATR\<close>

lemma calculateATR_short:
  "length hs < period \<Longrightarrow> calculateATR hs ls cs period = replicate (length hs) Null"
  by (simp add: calculateATR_def)

lemma calculateATR_run:
  "period \<le> length hs \<Longrightarrow>
   calculateATR hs ls cs period = atr_run hs ls cs period (length hs)"
  by (simp add: calculateATR_def atr_run_def atr_seed_def Let_def)

lemma jadd_NaN_right [simp]: "jadd s NaN = NaN"
  by (cases s) simp_all

lemma jsub_NaN_left [simp]: "jsub NaN x = NaN"
  by (simp add: jsub_def)

lemma jmax_NaN_right [simp]: "jmax s NaN = NaN"
  by (cases s) simp_all

lemma true_range_out:
  "length hs \<le> i \<Longrightarrow> true_range hs ls cs i = NaN"
  by (simp add: true_range_def rd_def jmax3_def Let_def)

lemma atr_seed_at_period:
  "length hs = period \<Longrightarrow> atr_seed hs ls cs period = NaN"
proof (cases period)
  case 0
  then show ?thesis by (simp add: atr_seed_def)
next
  case (Suc p)
  assume "length hs = period"
  then have "true_range hs ls cs (Suc p) = NaN"
    using Suc by (simp add: true_range_out)
  then show ?thesis using Suc by (simp add: atr_seed_def)
qed

lemma calculateATR_at_period:
  "length hs = period \<Longrightarrow>
   calculateATR hs ls cs period = replicate (length hs) Null @ [Val NaN]"
  by (simp add: calculateATR_run atr_run_def atr_seed_at_period js_set_def)

lemma true_range_nonneg:
  assumes "length ls = length hs" "length cs = length hs" "1 \<le> i" "i < length hs"
  shows "nonneg (true_range hs ls cs i)"
proof -
  have i1: "i - 1 < length hs" using assms by simp
  have "true_range hs ls cs i =
          Num (max (max (hs ! i - ls ! i) \<bar>hs ! i - cs ! (i - 1)\<bar>) \<bar>ls ! i - cs ! (i - 1)\<bar>)"
    using assms i1 by (simp add: true_range_def rd_def jmax3_def jsub_def Let_def)
  moreover have "0 \<le> max (max (hs ! i - ls ! i) \<bar>hs ! i - cs ! (i - 1)\<bar>) \<bar>ls ! i - cs ! (i - 1)\<bar>"
    by (simp add: le_max_iff_disj)
  ultimately show ?thesis by simp
qed

lemma tr_sum_nonneg:
  assumes "length ls = length hs" "length cs = length hs"
  shows "nonneg s \<Longrightarrow> \<forall>i\<in>set is. 1 \<le> i \<and> i < length hs \<Longrightarrow>
         nonneg (foldl (\<lambda>s i. jadd s (true_range hs ls cs i)) s is)"
proof (induction "is" arbitrary: s)
  case Nil
  then show ?case by simp
next
  case (Cons i "is")
  then have "nonneg (true_range hs ls cs i)"
    using true_range_nonneg[OF assms, of i] by simp
  with Cons.prems have "nonneg (jadd s (true_range hs ls cs i))"
    by (auto elim!: nonnegE)
  with Cons show ?case by simp
qed

lemma atr_seed_nonneg:
  assumes "length ls = length hs" "length cs = length hs" "1 \<le> period" "period < length hs"
  shows "nonneg (atr_seed hs ls cs period)"
proof -
  have "nonneg (foldl (\<lambda>s i. jadd s (true_range hs ls cs i)) (Num 0) [1..<period + 1])"
    by (rule tr_sum_nonneg[OF assms(1,2)]) (use assms in auto)
  then show ?thesis using assms(3) unfolding atr_seed_def
    by (auto elim!: nonnegE)
qed

lemma nn_cell_Val: "nonneg v \<Longrightarrow> nn_cell (Val v)"
  by (auto simp: nn_cell_def elim!: nonnegE)

lemma nn_cell_to_num: "nn_cell c \<Longrightarrow> nonneg (to_num c)"
  by (auto simp: nn_cell_def split: cell.splits jsnum.splits)

lemma atr_run_Suc:
  "period < j \<Longrightarrow>
   atr_run hs ls cs period (Suc j) =
     atr_step hs ls cs period (atr_run hs ls cs period j) j"
  by (simp add: atr_run_def)

lemma atr_run_inv:
  assumes "length ls = length hs" "length cs = length hs" "1 \<le> period" "period < length hs"
  shows "period < j \<Longrightarrow> j \<le> length hs \<Longrightarrow>
     length (atr_run hs ls cs period j) = length hs \<and>
     (\<forall>i<length hs. if i < period \<or> j \<le> i then atr_run hs ls cs period j ! i = Null
                       else nn_cell (atr_run hs ls cs period j ! i))"
proof (induction j)
  case 0
  then show ?case by simp
next
  case (Suc j)
  show ?case
  proof (cases "j = period")
    case True
    have "atr_run hs ls cs period (Suc j) =
          (replicate (length hs) Null)[period := Val (atr_seed hs ls cs period)]"
      using assms(4) True by (simp add: atr_run_def js_set_in)
    then show ?thesis using True nn_cell_Val[OF atr_seed_nonneg[OF assms]]
      by (auto simp: nth_list_update)
  next
    case False
    with Suc.prems have pj: "period < j" "j \<le> length hs" "j < length hs" by simp_all
    let ?a = "atr_run hs ls cs period j"
    from Suc.IH[OF pj(1,2)] have len: "length ?a = length hs"
      and IH: "\<forall>i<length hs. if i < period \<or> j \<le> i then ?a ! i = Null else nn_cell (?a ! i)"
      by simp_all
    have "j - 1 < length hs" "\<not> (j - 1 < period \<or> j \<le> j - 1)" using pj by auto
    then have "nn_cell (?a ! (j - 1))" using IH[rule_format, of "j - 1"] by simp
    then have prev: "nonneg (to_num (nth_js ?a (j - 1)))"
      using len pj by (simp add: nn_cell_to_num)
    have tr: "nonneg (true_range hs ls cs j)"
      using true_range_nonneg[OF assms(1,2), of j] pj assms(3) by simp
    let ?v = "jdiv (jadd (jmul (to_num (nth_js ?a (j - 1))) (Num (real period - 1)))
                        (true_range hs ls cs j)) (Num (real period))"
    have v: "nonneg ?v" using prev tr assms(3)
      by (auto elim!: nonnegE)
    have step: "atr_run hs ls cs period (Suc j) = ?a[j := Val ?v]"
      using atr_run_Suc[OF pj(1)] len pj by (simp add: atr_step_def js_set_in)
    show ?thesis
    proof (intro conjI allI impI)
      show "length (atr_run hs ls cs period (Suc j)) = length hs"
        using step len by simp
    next
      fix i assume i: "i < length hs"
      show "if i < period \<or> Suc j \<le> i then atr_run hs ls cs period (Suc j) ! i = Null
            else nn_cell (atr_run hs ls cs period (Suc j) ! i)"
      proof (cases "i = j")
        case True
        then show ?thesis using step len pj nn_cell_Val[OF v] by simp
      next
        case False
        then have "atr_run hs ls cs period (Suc j) ! i = ?a ! i" using step by simp
        then show ?thesis using IH i False by auto
      qed
    qed
  qed
qed

lemma calculateATR_long:
  assumes "length ls = length hs" "length cs = length hs" "1 \<le> period" "period < length hs"
  shows "length (calculateATR hs ls cs period) = length hs"
    and "i < length hs \<Longrightarrow>
         (if i < period then calculateATR hs ls cs period ! i = Null
          else nn_cell (calculateATR hs ls cs period ! i))"
  using atr_run_inv[OF assms, of "length hs"] assms(4)
  by (auto simp: calculateATR_run)

lemma length_atr_run:
  "period < length hs \<Longrightarrow> j \<le> length hs \<Longrightarrow>
   length (atr_run hs ls cs period j) = length hs"
proof (induction j)
  case 0
  then show ?case by (simp add: atr_run_def js_set_in)
next
  case (Suc j)
  show ?case
  proof (cases "period < j")
    case True
    with Suc show ?thesis by (simp add: atr_run_Suc atr_step_def js_set_in)
  next
    case False
    with Suc.prems show ?thesis by (simp add: atr_run_def js_set_in)
  qed
qed

lemma length_calculateATR:
  "length hs \<noteq> period \<Longrightarrow> length (calculateATR hs ls cs period) = length hs"
  by (cases "length hs < period")
     (simp_all add: calculateATR_short calculateATR_run length_atr_run)

text \<open>
  Every indicator series has the length of its input, the ATR when the series does not
  have exactly \<open>period\<close> bars.
\<close>

lemma indicator_lengths:
  "length (calculateSMA xs period) = length xs"
  "length (calculateEMA xs period) = length xs"
  "calculateMACD data f s sp = Inr m \<Longrightarrow>
     length (macdLine m) = length data \<and> length (signalLine m) = length data
     \<and> length (histogram m) = length data"
  "length (calculateRSI data period) = length data"
  "length hs \<noteq> period \<Longrightarrow> length (calculateATR hs ls cs period) = length hs"
proof -
  show "calculateMACD data f s sp = Inr m \<Longrightarrow>
     length (macdLine m) = length data \<and> length (signalLine m) = length data
     \<and> length (histogram m) = length data"
    using length_signal[of data f s sp]
    by (auto simp: calculateMACD_eq length_macd_line length_diff_line)
qed (simp_all add: length_calculateSMA length_calculateEMA length_calculateRSI length_calculateATR)

text \<open>
  C2 fails for \<open>calculateATR\<close> on a series of exactly \<open>period\<close> bars: the guard
  \<open>high.length < period\<close> lets it through, the seed reads \<open>high[period]\<close> outside the
  series and \<open>atr[period] = NaN\<close> makes the output one element longer than the input.
\<close>

theorem C2_atr_length_at_period:
  "calculateATR (replicate 14 3) (replicate 14 1) (replicate 14 2) 14
     = replicate 14 Null @ [Val NaN] \<and>
   length (calculateATR (replicate 14 3) (replicate 14 1) (replicate 14 2) 14) = 15"
  by (simp add: calculateATR_at_period)




section \<open>The signal engine\<close>

lemma analyzeData_decide:
  "analyzeData now data = Inr (decide (base_signal now data) (length data))"
  by (simp add: analyzeData_def calculateMACD_eq base_signal_def snapshot_def Let_def)

lemma snapshot_MACD:
  "calculateMACD (map close data) 12 26 9 = Inr m \<Longrightarrow>
   snapshot data =
     \<lparr>macdLine = macdLine m, signalLine = signalLine m, histogram = histogram m,
      ema50 = calculateEMA (map Num (map close data)) 50,
      ema200 = calculateEMA (map Num (map close data)) 200,
      rsi = calculateRSI (map close data) 14,
      atr = calculateATR (map high data) (map low data) (map close data) 14\<rparr>"
  by (auto simp: calculateMACD_eq snapshot_def Let_def)

lemma decide_short:
  "len < 200 \<Longrightarrow>
   decide base len =
     base\<lparr>direction := HOLD, reasoning := [''Not enough data points to generate signals.'']\<rparr>"
  by (simp add: decide_def Let_def)

text \<open>
  C4. A series of fewer than 200 bars gives HOLD with the single reasoning entry
  "Not enough data points to generate signals.", no entry price, stop loss or take
  profit, and the indicator series computed from the series as the snapshot.
\<close>

theorem C4_insufficient_history:
  assumes "length data < 200"
  shows "\<exists>m s. calculateMACD (map close data) 12 26 9 = Inr m \<and>
           analyzeData now data = Inr s \<and>
           direction s = HOLD \<and>
           reasoning s = [''Not enough data points to generate signals.''] \<and>
           entryPrice s = None \<and> stopLoss s = None \<and> takeProfit s = None \<and>
           indicatorData s =
             \<lparr>macdLine = macdLine m, signalLine = signalLine m, histogram = histogram m,
              ema50 = calculateEMA (map Num (map close data)) 50,
              ema200 = calculateEMA (map Num (map close data)) 200,
              rsi = calculateRSI (map close data) 14,
              atr = calculateATR (map high data) (map low data) (map close data) 14\<rparr>"
proof -
  obtain m where m: "calculateMACD (map close data) 12 26 9 = Inr m"
    by (simp add: calculateMACD_eq)
  show ?thesis
    using m snapshot_MACD[OF m] assms
    by (simp add: analyzeData_decide decide_short base_signal_def Let_def)
qed

theorem C4_insufficient_history_witness:
  "length (replicate 50 \<lparr>date = 1, open' = 10, high = 12, low = 9, close = 11, volume = 5\<rparr>) < 200 \<and>
   (\<exists>s. analyzeData 7 (replicate 50 \<lparr>date = 1, open' = 10, high = 12, low = 9, close = 11, volume = 5\<rparr>) = Inr s \<and>
        direction s = HOLD \<and>
        reasoning s = [''Not enough data points to generate signals.''] \<and>
        entryPrice s = None \<and> stopLoss s = None \<and> takeProfit s = None)"
proof -
  have h: "length (replicate 50 \<lparr>date = 1, open' = 10, high = 12, low = 9, close = 11, volume = 5\<rparr>) < 200"
    by simp
  from C4_insufficient_history [OF h, of 7] show ?thesis using h by blast
qed

lemma cell_cases: "c \<noteq> Null \<Longrightarrow> c \<noteq> Undefined \<Longrightarrow> \<exists>v. c = Val v"
  by (cases c) simp_all

lemma at_last_nth: "0 < len \<Longrightarrow> length xs = len \<Longrightarrow> at_last xs len = xs ! (len - 1)"
  by (simp add: at_last_def)

lemma at_last_Val:
  "0 < len \<Longrightarrow> length xs = len \<Longrightarrow> xs ! (len - 1) \<noteq> Null \<Longrightarrow> xs ! (len - 1) \<noteq> Undefined
   \<Longrightarrow> \<exists>v. at_last xs len = Val v"
  by (simp add: at_last_def cell_cases)

lemma percent_defined: "percent c \<Longrightarrow> c \<noteq> Null \<and> c \<noteq> Undefined"
  by (auto simp: percent_def)

lemma nn_cell_defined: "nn_cell c \<Longrightarrow> c \<noteq> Null \<and> c \<noteq> Undefined"
  by (auto simp: nn_cell_def)

lemma snapshot_fields:
  "ema50 (snapshot data) = calculateEMA (map Num (map close data)) 50"
  "ema200 (snapshot data) = calculateEMA (map Num (map close data)) 200"
  "macdLine (snapshot data) = macd_line (map close data) 12 26"
  "signalLine (snapshot data) =
     replicate (macd_warmup (length data) 12 26) Null
     @ calculateEMA (map to_num (drop (macd_warmup (length data) 12 26)
                                   (macd_line (map close data) 12 26))) 9"
  "rsi (snapshot data) = calculateRSI (map close data) 14"
  "atr (snapshot data) = calculateATR (map high data) (map low data) (map close data) 14"
  by (simp_all add: snapshot_def)

lemma latest_defined:
  assumes "200 \<le> length data"
  shows "\<exists>v. at_last (ema50 (snapshot data)) (length data) = Val v"
    and "\<exists>v. at_last (ema200 (snapshot data)) (length data) = Val v"
    and "\<exists>v. at_last (macdLine (snapshot data)) (length data) = Val v"
    and "\<exists>v. at_last (signalLine (snapshot data)) (length data) = Val v"
    and "\<exists>v. at_last (rsi (snapshot data)) (length data) = Val v"
    and "\<exists>v. at_last (atr (snapshot data)) (length data) = Val v"
proof -
  let ?n = "length data"
  let ?cl = "map close data"
  have n: "0 < ?n" "?n - 1 < length ?cl" "?n - 1 < length (map Num ?cl)"
    using assms by auto
  have w: "macd_warmup ?n 12 26 = 25" using assms by (simp add: macd_warmup_def)
  have l1: "length (calculateEMA (map Num ?cl) 50) = ?n" "length (calculateEMA (map Num ?cl) 200) = ?n"
    by (simp_all add: length_calculateEMA)
  have "calculateEMA (map Num ?cl) 50 ! (?n - 1) \<noteq> Null"
    using calculateEMA_Null_iff[OF n(3), of 50] assms by simp
  from at_last_Val[OF n(1) l1(1) this calculateEMA_not_Undefined[OF n(3)]]
  show "\<exists>v. at_last (ema50 (snapshot data)) ?n = Val v"
    by (simp only: snapshot_fields)
  have "calculateEMA (map Num ?cl) 200 ! (?n - 1) \<noteq> Null"
    using calculateEMA_Null_iff[OF n(3), of 200] assms by simp
  from at_last_Val[OF n(1) l1(2) this calculateEMA_not_Undefined[OF n(3)]]
  show "\<exists>v. at_last (ema200 (snapshot data)) ?n = Val v"
    by (simp only: snapshot_fields)
  have m1: "macd_line ?cl 12 26 ! (?n - 1) \<noteq> Null"
    using macd_line_Null_iff[OF n(2), of 12 26] w assms by simp
  then have m2: "macd_line ?cl 12 26 ! (?n - 1) \<noteq> Undefined"
    using macd_line_cases[OF n(2), of 12 26] by auto
  have lm: "length (macd_line ?cl 12 26) = ?n" by (simp add: length_macd_line)
  from at_last_Val[OF n(1) lm m1 m2]
  show "\<exists>v. at_last (macdLine (snapshot data)) ?n = Val v"
    by (simp only: snapshot_fields)
  let ?V = "map to_num (drop 25 (macd_line ?cl 12 26))"
  let ?S = "replicate 25 Null @ calculateEMA ?V 9"
  have lv: "?n - 1 - 25 < length ?V" using assms by (simp add: length_macd_line)
  have "\<not> ?n - 1 < length (replicate 25 (Null::cell))" using assms by simp
  then have s0: "?S ! (?n - 1) = calculateEMA ?V 9 ! (?n - 1 - 25)"
    by (simp only: nth_append if_False length_replicate)
  have s1: "?S ! (?n - 1) \<noteq> Null"
    using calculateEMA_Null_iff[OF lv, of 9] assms s0 by simp
  have s2: "?S ! (?n - 1) \<noteq> Undefined"
    using calculateEMA_not_Undefined[OF lv, of 9] s0 by simp
  have ls: "length ?S = ?n"
    using length_signal[of ?cl 12 26 9] w by simp
  from at_last_Val[OF n(1) ls s1 s2]
  show "\<exists>v. at_last (signalLine (snapshot data)) ?n = Val v"
    by (simp only: snapshot_fields w)
  have "percent (calculateRSI ?cl 14 ! (?n - 1))"
    using calculateRSI_nth[OF n(2), of 14] assms by (auto split: if_splits)
  from at_last_Val[OF n(1) _ percent_defined[OF this, THEN conjunct1]
                   percent_defined[OF this, THEN conjunct2]]
  show "\<exists>v. at_last (rsi (snapshot data)) ?n = Val v"
    by (simp only: snapshot_fields) (simp add: length_calculateRSI)
  have p: "length (map low data) = length (map high data)"
    "length ?cl = length (map high data)" "(1::nat) \<le> 14" "14 < length (map high data)"
    using assms by simp_all
  have k: "?n - 1 < length (map high data)" "\<not> ?n - 1 < 14" using assms by auto
  have "nn_cell (calculateATR (map high data) (map low data) ?cl 14 ! (?n - 1))"
    using calculateATR_long(2)[OF p k(1)] k(2) by (simp only: if_False)
  from at_last_Val[OF n(1) _ nn_cell_defined[OF this, THEN conjunct1]
                   nn_cell_defined[OF this, THEN conjunct2]]
  show "\<exists>v. at_last (atr (snapshot data)) ?n = Val v"
    using calculateATR_long(1)[OF p] by (simp only: snapshot_fields) simp
qed

lemma decide_long:
  assumes "200 \<le> len"
    and "at_last (ema50 (indicatorData base)) len = Val e50"
    and "at_last (ema200 (indicatorData base)) len = Val e200"
    and "at_last (macdLine (indicatorData base)) len = Val mc"
    and "at_last (signalLine (indicatorData base)) len = Val sg"
    and "at_last (rsi (indicatorData base)) len = Val rv"
    and "at_last (atr (indicatorData base)) len = Val av"
  shows "decide base len =
     (if jgt e50 e200 \<and> jgt (currentPrice base) e50 \<and> (jgt mc sg \<and> jgt mc (Num 0))
          \<and> jgt rv (Num 55)
      then base\<lparr>sid := (''BUY'', timestamp base), direction := BUY,
                entryPrice := Some (currentPrice base),
                stopLoss := Some (jsub (currentPrice base) (jmul av ATR_MULTIPLIER)),
                takeProfit := Some (jadd (currentPrice base)
                   (jmul (jsub (currentPrice base)
                               (jsub (currentPrice base) (jmul av ATR_MULTIPLIER)))
                         RISK_REWARD_RATIO)),
                reasoning := buy_reasoning\<rparr>
      else if jlt e50 e200 \<and> jlt (currentPrice base) e50 \<and> (jlt mc sg \<and> jlt mc (Num 0))
               \<and> jlt rv (Num 45)
      then base\<lparr>sid := (''SELL'', timestamp base), direction := SELL,
                entryPrice := Some (currentPrice base),
                stopLoss := Some (jadd (currentPrice base) (jmul av ATR_MULTIPLIER)),
                takeProfit := Some (jsub (currentPrice base)
                   (jmul (jsub (jadd (currentPrice base) (jmul av ATR_MULTIPLIER))
                               (currentPrice base))
                         RISK_REWARD_RATIO)),
                reasoning := sell_reasoning\<rparr>
      else base\<lparr>direction := HOLD,
                reasoning :=
                  [''No high-confluence signal conditions met. Waiting for alignment.'']\<rparr>)"
  using assms by (simp add: decide_def Let_def)

lemma base_signal_fields:
  "indicatorData (base_signal now data) = snapshot data"
  "entryPrice (base_signal now data) = None"
  "stopLoss (base_signal now data) = None"
  "takeProfit (base_signal now data) = None"
  "direction (base_signal now data) = HOLD"
  by (simp_all add: base_signal_def Let_def)

lemma decide_indicatorData: "indicatorData (decide base len) = indicatorData base"
  by (simp add: decide_def Let_def)

lemma decide_well_formed:
  assumes "entryPrice base = None" "stopLoss base = None" "takeProfit base = None"
  shows "reasoning (decide base len) \<noteq> [] \<and>
         (direction (decide base len) = HOLD \<longrightarrow>
            entryPrice (decide base len) = None \<and> stopLoss (decide base len) = None
            \<and> takeProfit (decide base len) = None) \<and>
         (direction (decide base len) \<noteq> HOLD \<longrightarrow>
            entryPrice (decide base len) \<noteq> None \<and> stopLoss (decide base len) \<noteq> None
            \<and> takeProfit (decide base len) \<noteq> None)"
  using assms by (simp add: decide_def Let_def buy_reasoning_def sell_reasoning_def)

text \<open>
  C6. No call of \<open>calculateMACD\<close> reaches the RangeError of \<open>Array(n)\<close>, whatever the
  series and the periods, and \<open>analyzeData\<close> returns a signal for every series: its
  reasoning is not empty, it has an entry price, a stop loss and a take profit exactly
  when its direction is not HOLD, and a series of fewer than 200 bars (the empty one
  included) gives HOLD with the entry "Not enough data points to generate signals.".
  Every function of the model is total: each loop runs over the finite list of its
  indices.
\<close>

theorem C6_no_exception:
  "(\<exists>m. calculateMACD xs fastPeriod slowPeriod signalPeriod = Inr m) \<and>
   (\<exists>s. analyzeData now data = Inr s \<and>
        reasoning s \<noteq> [] \<and>
        (direction s = HOLD \<longrightarrow>
           entryPrice s = None \<and> stopLoss s = None \<and> takeProfit s = None) \<and>
        (direction s \<noteq> HOLD \<longrightarrow>
           entryPrice s \<noteq> None \<and> stopLoss s \<noteq> None \<and> takeProfit s \<noteq> None) \<and>
        (length data < 200 \<longrightarrow>
           direction s = HOLD \<and>
           reasoning s = [''Not enough data points to generate signals.'']))"
proof -
  have a: "\<exists>m. calculateMACD xs fastPeriod slowPeriod signalPeriod = Inr m"
    by (simp add: calculateMACD_eq)
  have b: "length data < 200 \<longrightarrow>
           direction (decide (base_signal now data) (length data)) = HOLD \<and>
           reasoning (decide (base_signal now data) (length data))
             = [''Not enough data points to generate signals.'']"
    by (simp add: decide_short)
  show ?thesis
    using a b decide_well_formed[OF base_signal_fields(2,3,4), of now data "length data"]
    unfolding analyzeData_decide by blast
qed

theorem C6_no_exception_witness:
  "\<exists>s. analyzeData 7 [] = Inr s \<and> direction s = HOLD \<and>
       reasoning s = [''Not enough data points to generate signals.''] \<and>
       entryPrice s = None \<and> stopLoss s = None \<and> takeProfit s = None"
  using C6_no_exception [of "[]" 12 26 9 7 "[]"] by auto

text \<open>
  C10. With at least 200 bars the latest values of EMA-50, EMA-200, the MACD line, the
  signal line, RSI-14 and ATR-14 are all defined, so no series makes \<open>analyzeData\<close>
  answer "Indicators are still calculating.".
\<close>

theorem C10_never_still_calculating:
  "\<exists>s. analyzeData now data = Inr s \<and>
     reasoning s \<noteq> [''Indicators are still calculating.''] \<and>
     (200 \<le> length data \<longrightarrow>
        (\<exists>e50 e200 mc sg rv av.
           at_last (ema50 (indicatorData s)) (length data) = Val e50 \<and>
           at_last (ema200 (indicatorData s)) (length data) = Val e200 \<and>
           at_last (macdLine (indicatorData s)) (length data) = Val mc \<and>
           at_last (signalLine (indicatorData s)) (length data) = Val sg \<and>
           at_last (rsi (indicatorData s)) (length data) = Val rv \<and>
           at_last (atr (indicatorData s)) (length data) = Val av))"
proof (cases "200 \<le> length data")
  case True
  let ?b = "base_signal now data"
  from latest_defined[OF True] obtain e50 e200 mc sg rv av where
    v: "at_last (ema50 (indicatorData ?b)) (length data) = Val e50"
       "at_last (ema200 (indicatorData ?b)) (length data) = Val e200"
       "at_last (macdLine (indicatorData ?b)) (length data) = Val mc"
       "at_last (signalLine (indicatorData ?b)) (length data) = Val sg"
       "at_last (rsi (indicatorData ?b)) (length data) = Val rv"
       "at_last (atr (indicatorData ?b)) (length data) = Val av"
    unfolding base_signal_fields by blast
  have "reasoning (decide ?b (length data)) \<noteq> [''Indicators are still calculating.'']"
    unfolding decide_long[OF True v] by (simp add: buy_reasoning_def sell_reasoning_def)
  then show ?thesis
    using v unfolding analyzeData_decide by (simp add: decide_indicatorData)
next
  case False
  then show ?thesis
    unfolding analyzeData_decide by (simp add: decide_short)
qed

theorem C10_never_still_calculating_witness:
  "\<exists>s e50 e200 mc sg rv av.
     analyzeData 7 (replicate 200 \<lparr>date = 1, open' = 10, high = 12, low = 9, close = 11, volume = 5\<rparr>) = Inr s \<and>
     reasoning s \<noteq> [''Indicators are still calculating.''] \<and>
     at_last (ema50 (indicatorData s)) 200 = Val e50 \<and>
     at_last (ema200 (indicatorData s)) 200 = Val e200 \<and>
     at_last (macdLine (indicatorData s)) 200 = Val mc \<and>
     at_last (signalLine (indicatorData s)) 200 = Val sg \<and>
     at_last (rsi (indicatorData s)) 200 = Val rv \<and>
     at_last (atr (indicatorData s)) 200 = Val av"
  using C10_never_still_calculating [of 7 "replicate 200 \<lparr>date = 1, open' = 10, high = 12, low = 9, close = 11, volume = 5\<rparr>"] by simp

section \<open>Values of the EMA\<close>

lemma ema_state_snoc:
  assumes "k < length data"
  shows "fst (ema_state data p (Suc k)) = fst (ema_state data p k) @ [snd (ema_state data p (Suc k))]"
proof -
  from ema_state_inv[of k data p] assms
  have n: "(snd (ema_state data p k) = Null) = (p = 0 \<or> k < p)" by simp
  obtain e pr where st: "ema_state data p k = (e, pr)" by (cases "ema_state data p k")
  show ?thesis using n st
    by (auto simp: ema_state_Suc ema_step_def Let_def)
qed

lemma ema_state_nth:
  "k < j \<Longrightarrow> j \<le> length data \<Longrightarrow>
   fst (ema_state data p j) ! k = snd (ema_state data p (Suc k))"
proof (induction j)
  case 0
  then show ?case by simp
next
  case (Suc j)
  then have j: "j < length data" by simp
  have len: "length (fst (ema_state data p j)) = j"
    using ema_state_inv[of j data p] j by simp
  show ?case
  proof (cases "k = j")
    case True
    then show ?thesis using ema_state_snoc[OF j, of p] len by (metis nth_append_length)
  next
    case False
    with Suc.prems have "k < j" by simp
    then show ?thesis using Suc.IH j ema_state_snoc[OF j, of p] len by (simp add: nth_append)
  qed
qed

lemma calculateEMA_nth:
  "k < length data \<Longrightarrow> calculateEMA data p ! k = snd (ema_state data p (Suc k))"
  by (simp add: calculateEMA_state ema_state_nth)

lemma ema_seed:
  assumes "1 \<le> p" "p \<le> length data"
  shows "snd (ema_state data p p) = Val (jdiv (foldl jadd (Num 0) (take p data)) (Num (real p)))"
proof -
  obtain k where k: "p = Suc k" using assms(1) by (cases p) auto
  then have kl: "k < length data" using assms by simp
  show ?thesis unfolding k ema_state_Suc
    using kl by (simp add: ema_step_def Let_def length_calculateSMA sma_nth slice_def)
qed

lemma ema_next:
  assumes "1 \<le> p" "p \<le> k" "k < length data"
  shows "snd (ema_state data p (Suc k)) =
     Val (jadd (jmul (jsub (rd data k) (to_num (snd (ema_state data p k))))
                     (jdiv (Num 2) (Num (real p + 1))))
               (to_num (snd (ema_state data p k))))"
proof -
  from ema_state_inv[of k data p] assms
  have "snd (ema_state data p k) \<noteq> Null" by simp
  then show ?thesis using assms
    by (simp add: ema_state_Suc ema_step_def Let_def)
qed

lemma foldl_jadd_replicate:
  "foldl jadd (Num s) (replicate m (Num c)) = Num (s + real m * c)"
  by (induction m arbitrary: s) (simp_all add: algebra_simps)

lemma take_const:
  assumes "m \<le> length xs" "\<forall>i<m. xs ! i = c" "p \<le> m"
  shows "take p xs = replicate p c"
  by (rule nth_equalityI) (use assms in auto)

lemma ema_const_prefix:
  assumes "m \<le> length data" "\<forall>i<m. data ! i = Num c" "1 \<le> p"
  shows "p \<le> k \<Longrightarrow> k \<le> m \<Longrightarrow> snd (ema_state data p k) = Val (Num c)"
proof (induction k)
  case 0
  then show ?case using assms by simp
next
  case (Suc k)
  show ?case
  proof (cases "p = Suc k")
    case True
    have "take p data = replicate p (Num c)"
      using take_const[OF assms(1,2)] Suc.prems by simp
    moreover have "jdiv (Num (0 + real p * c)) (Num (real p)) = Num c"
      using assms(3) by simp
    moreover have "p \<le> length data" using assms(1) Suc.prems True by simp
    ultimately have "snd (ema_state data p p) = Val (Num c)"
      using ema_seed[OF assms(3)] by (simp only: foldl_jadd_replicate)
    then show ?thesis using True by simp
  next
    case False
    with Suc.prems have pk: "p \<le> k" "k \<le> m" "k < m" by simp_all
    then have kl: "k < length data" using assms by simp
    have "rd data k = Num c" using assms pk kl by (simp add: rd_def)
    then show ?thesis
      using ema_next[OF assms(3) pk(1) kl] Suc.IH[OF pk(1,2)] by (simp add: jsub_def)
  qed
qed

text \<open>The last two values of the EMA of a series that is constant up to its last two values.\<close>

lemma ema_two_tail:
  assumes "1 \<le> p" "p \<le> m"
  shows "calculateEMA (replicate m (Num c) @ [Num a, Num b]) p ! m =
           Val (Num ((a - c) * (2 / (real p + 1)) + c))"
    and "calculateEMA (replicate m (Num c) @ [Num a, Num b]) p ! Suc m =
           Val (Num ((b - ((a - c) * (2 / (real p + 1)) + c)) * (2 / (real p + 1))
                     + ((a - c) * (2 / (real p + 1)) + c)))"
    and "i < m \<Longrightarrow> p \<le> Suc i \<Longrightarrow>
         calculateEMA (replicate m (Num c) @ [Num a, Num b]) p ! i = Val (Num c)"
proof -
  let ?d = "replicate m (Num c) @ [Num a, Num b]"
  have c: "m \<le> length ?d" "\<forall>i<m. ?d ! i = Num c" by (simp_all add: nth_append)
  have s: "snd (ema_state ?d p m) = Val (Num c)"
    using ema_const_prefix[OF c assms(1), of m] assms by simp
  have r: "rd ?d m = Num a" "rd ?d (Suc m) = Num b" by (simp_all add: rd_def nth_append)
  have p1: "real p + 1 \<noteq> 0" by (simp add: add_nonneg_eq_0_iff)
  have 1: "snd (ema_state ?d p (Suc m)) = Val (Num ((a - c) * (2 / (real p + 1)) + c))"
    using ema_next[OF assms(1,2), of ?d] s r p1 by (simp add: jsub_def)
  then show "calculateEMA ?d p ! m = Val (Num ((a - c) * (2 / (real p + 1)) + c))"
    by (simp add: calculateEMA_nth)
  have "p \<le> Suc m" using assms by simp
  from ema_next[OF assms(1) this, of ?d] 1 r p1
  show "calculateEMA ?d p ! Suc m =
           Val (Num ((b - ((a - c) * (2 / (real p + 1)) + c)) * (2 / (real p + 1))
                     + ((a - c) * (2 / (real p + 1)) + c)))"
    by (simp add: calculateEMA_nth jsub_def)
  show "calculateEMA ?d p ! i = Val (Num c)" if "i < m" "p \<le> Suc i"
    using ema_const_prefix[OF c assms(1), of "Suc i"] that by (simp add: calculateEMA_nth)
qed

section \<open>The indicators on the BUY series\<close>

lemma buy_closes_Num: "map Num buy_closes = replicate 198 (Num 100) @ [Num 99, Num 102]"
  by (simp add: buy_closes_def)

lemma length_buy_closes: "length buy_closes = 200"
  by (simp add: buy_closes_def)

lemma buy_ema50: "calculateEMA (map Num buy_closes) 50 ! 199 = Val (Num (260206 / 2601))"
  using ema_two_tail(2)[of 50 198 100 99 102] by (simp add: buy_closes_Num)

lemma buy_ema200: "calculateEMA (map Num buy_closes) 200 ! 199 = Val (Num (20001 / 200))"
proof -
  have "snd (ema_state (map Num buy_closes) 200 200)
          = Val (jdiv (foldl jadd (Num 0) (take 200 (map Num buy_closes))) (Num (real 200)))"
    by (rule ema_seed) (simp_all add: length_buy_closes)
  moreover have "foldl jadd (Num 0) (take 200 (map Num buy_closes)) = Num 20001"
    by (simp add: buy_closes_Num foldl_jadd_replicate)
  ultimately have "snd (ema_state (map Num buy_closes) 200 (Suc 199)) = Val (Num (20001 / 200))"
    by simp
  then show ?thesis
    using calculateEMA_nth[of 199 "map Num buy_closes" 200] by (simp add: length_buy_closes)
qed

lemma buy_macd:
  "macd_line buy_closes 12 26 ! 198 = Val (Num (- 28 / 351))"
  "macd_line buy_closes 12 26 ! 199 = Val (Num (12068 / 123201))"
  "25 \<le> i \<Longrightarrow> i < 198 \<Longrightarrow> macd_line buy_closes 12 26 ! i = Val (Num 0)"
proof -
  have l: "length (calculateEMA (map Num buy_closes) 12) = 200"
    "length (calculateEMA (map Num buy_closes) 26) = 200"
    by (simp_all add: length_calculateEMA length_buy_closes)
  have a: "calculateEMA (map Num buy_closes) 12 ! 198 = Val (Num (1298 / 13))"
    "calculateEMA (map Num buy_closes) 26 ! 198 = Val (Num (2698 / 27))"
    using ema_two_tail(1)[of 12 198 100 99 102] ema_two_tail(1)[of 26 198 100 99 102]
    by (simp_all add: buy_closes_Num)
  have b: "calculateEMA (map Num buy_closes) 12 ! 199 = Val (Num (16930 / 169))"
    "calculateEMA (map Num buy_closes) 26 ! 199 = Val (Num (72958 / 729))"
    using ema_two_tail(2)[of 12 198 100 99 102] ema_two_tail(2)[of 26 198 100 99 102]
    by (simp_all add: buy_closes_Num)
  show "macd_line buy_closes 12 26 ! 198 = Val (Num (- 28 / 351))"
    using a l by (simp add: macd_line_def diff_line_nth length_buy_closes jsub_def)
  show "macd_line buy_closes 12 26 ! 199 = Val (Num (12068 / 123201))"
    using b l by (simp add: macd_line_def diff_line_nth length_buy_closes jsub_def)
  show "macd_line buy_closes 12 26 ! i = Val (Num 0)" if i: "25 \<le> i" "i < 198"
  proof -
    have "calculateEMA (map Num buy_closes) 12 ! i = Val (Num 100)"
      "calculateEMA (map Num buy_closes) 26 ! i = Val (Num 100)"
      using ema_two_tail(3)[of 12 198 i 100 99 102] ema_two_tail(3)[of 26 198 i 100 99 102] i
      by (simp_all add: buy_closes_Num)
    then show ?thesis using l i
      by (simp add: macd_line_def diff_line_nth length_buy_closes jsub_def)
  qed
qed

lemma buy_valid_macd:
  "map to_num (drop 25 (macd_line buy_closes 12 26))
     = replicate 173 (Num 0) @ [Num (- 28 / 351), Num (12068 / 123201)]"
proof (rule nth_equalityI)
  show "length (map to_num (drop 25 (macd_line buy_closes 12 26)))
        = length (replicate 173 (Num 0) @ [Num (- 28 / 351), Num (12068 / 123201)])"
    by (simp add: length_macd_line length_buy_closes)
next
  fix i assume "i < length (map to_num (drop 25 (macd_line buy_closes 12 26)))"
  then have i: "i < 175" by (simp add: length_macd_line length_buy_closes)
  then consider "i < 173" | "i = 173" | "i = 174" by linarith
  then show "map to_num (drop 25 (macd_line buy_closes 12 26)) ! i
             = (replicate 173 (Num 0) @ [Num (- 28 / 351), Num (12068 / 123201)]) ! i"
  proof cases
    case 1
    then have "macd_line buy_closes 12 26 ! (25 + i) = Val (Num 0)"
      by (intro buy_macd(3)) simp_all
    then show ?thesis using 1 i
      by (simp add: length_macd_line length_buy_closes nth_append)
  next
    case 2
    then show ?thesis using buy_macd(1)
      by (simp add: length_macd_line length_buy_closes nth_append)
  next
    case 3
    then show ?thesis using buy_macd(2)
      by (simp add: length_macd_line length_buy_closes nth_append)
  qed
qed

lemma buy_signal:
  "(replicate 25 Null @ calculateEMA (map to_num (drop 25 (macd_line buy_closes 12 26))) 9) ! 199
     = Val (Num (21028 / 3080025))"
proof -
  have "calculateEMA (map to_num (drop 25 (macd_line buy_closes 12 26))) 9 ! Suc 173
          = Val (Num (21028 / 3080025))"
    unfolding buy_valid_macd
    using ema_two_tail(2)[of 9 173 0 "- 28 / 351" "12068 / 123201"] by simp
  then show ?thesis by (simp add: nth_append)
qed

lemma rsi_seed_zero:
  "\<forall>i<p. rd changes i = Num 0 \<Longrightarrow> rsi_seed changes p = (Num 0, Num 0)"
proof -
  have "\<forall>i\<in>set is. rd changes i = Num 0 \<Longrightarrow>
        foldl (\<lambda>st i. if jgt (rd changes i) (Num 0)
                    then (jadd (fst st) (rd changes i), snd st)
                    else (fst st, jsub (snd st) (rd changes i))) (Num 0, Num 0) is
        = (Num 0, Num 0)" for "is"
    by (induction "is") (simp_all add: jsub_def)
  then show "\<forall>i<p. rd changes i = Num 0 \<Longrightarrow> rsi_seed changes p = (Num 0, Num 0)"
    unfolding rsi_seed_def by simp
qed

lemma rsi_step_snd:
  "snd (rsi_step period changes (r, g, l) i) =
     (jdiv (jadd (jmul g (Num (real period - 1)))
                 (if jgt (rd changes i) (Num 0) then rd changes i else Num 0))
           (Num (real period)),
      jdiv (jadd (jmul l (Num (real period - 1)))
                 (if jlt (rd changes i) (Num 0) then jneg (rd changes i) else Num 0))
           (Num (real period)))"
  by (simp add: rsi_step_def Let_def)

lemma rsi_avgs_Suc:
  "period \<le> j \<Longrightarrow>
   snd (rsi_run data period (Suc j)) =
     (jdiv (jadd (jmul (fst (snd (rsi_run data period j))) (Num (real period - 1)))
                 (if jgt (rd (rsi_changes data) j) (Num 0) then rd (rsi_changes data) j else Num 0))
           (Num (real period)),
      jdiv (jadd (jmul (snd (snd (rsi_run data period j))) (Num (real period - 1)))
                 (if jlt (rd (rsi_changes data) j) (Num 0) then jneg (rd (rsi_changes data) j)
                  else Num 0))
           (Num (real period)))"
  using rsi_step_snd[of period "rsi_changes data" "fst (rsi_run data period j)"
                        "fst (snd (rsi_run data period j))" "snd (snd (rsi_run data period j))" j]
  by (simp add: rsi_run_Suc)

lemma rsi_avgs_const:
  assumes "1 \<le> period" "\<forall>i<m. rd (rsi_changes data) i = Num 0"
  shows "period \<le> j \<Longrightarrow> j \<le> m \<Longrightarrow> snd (rsi_run data period j) = (Num 0, Num 0)"
proof (induction j)
  case 0
  then show ?case using assms by simp
next
  case (Suc j)
  show ?case
  proof (cases "period = Suc j")
    case True
    have "rsi_seed (rsi_changes data) period = (Num 0, Num 0)"
      using assms(2) Suc.prems by (intro rsi_seed_zero) simp
    then show ?thesis using assms(1) unfolding True[symmetric]
      by (simp add: rsi_run_base)
  next
    case False
    with Suc.prems have pj: "period \<le> j" "j \<le> m" "j < m" by simp_all
    then have "rd (rsi_changes data) j = Num 0" using assms(2) by simp
    then show ?thesis using rsi_avgs_Suc[OF pj(1), of data] Suc.IH[OF pj(1,2)] assms(1)
      by (simp add: jlt_def)
  qed
qed

lemma calculateRSI_last:
  assumes "period < length data"
  shows "calculateRSI data period ! (length data - 1) =
           Val (rsi_of (rs_of (fst (snd (rsi_run data period (length data - 1))))
                              (snd (snd (rsi_run data period (length data - 1))))))"
proof -
  have "period \<le> length data - 1" "length data - 1 < length data" using assms by simp_all
  from rsi_run_inv[OF assms this] show ?thesis
    by (simp add: calculateRSI_long[OF assms] split: prod.splits)
qed

lemma buy_rsi: "calculateRSI buy_closes 14 ! 199 = Val (Num (840 / 11))"
proof -
  have ch: "\<forall>i<197. rd (rsi_changes buy_closes) i = Num 0"
    by (simp add: rsi_changes_nth length_buy_closes) (simp add: buy_closes_def nth_append)
  have c197: "rd (rsi_changes buy_closes) 197 = Num (- 1)"
    using rsi_changes_nth[of 197 buy_closes]
    by (simp add: length_buy_closes) (simp add: buy_closes_def nth_append)
  have c198: "rd (rsi_changes buy_closes) 198 = Num 3"
    using rsi_changes_nth[of 198 buy_closes]
    by (simp add: length_buy_closes) (simp add: buy_closes_def nth_append)
  have s197: "snd (rsi_run buy_closes 14 197) = (Num 0, Num 0)"
    by (rule rsi_avgs_const[OF _ ch]) simp_all
  have s198: "snd (rsi_run buy_closes 14 (Suc 197)) = (Num 0, Num (1 / 14))"
    using rsi_avgs_Suc[of 14 197 buy_closes] s197 c197 by (simp add: jlt_def)
  then have "snd (rsi_run buy_closes 14 198) = (Num 0, Num (1 / 14))" by simp
  then have s199: "snd (rsi_run buy_closes 14 (Suc 198)) = (Num (3 / 14), Num (13 / 196))"
    using rsi_avgs_Suc[of 14 198 buy_closes] c198 by (simp add: jlt_def)
  then have "snd (rsi_run buy_closes 14 199) = (Num (3 / 14), Num (13 / 196))" by simp
  then show ?thesis
    using calculateRSI_last[of 14 buy_closes]
    by (simp add: length_buy_closes rs_of_def rsi_of_def jsub_def)
qed

lemma atr_run_base_nth:
  "period < length hs \<Longrightarrow>
   atr_run hs ls cs period (Suc period) ! period = Val (atr_seed hs ls cs period)"
  by (simp add: atr_run_def js_set_in)

lemma atr_run_Suc_nth:
  assumes "period < j" "j < length hs"
  shows "atr_run hs ls cs period (Suc j) ! j =
     Val (jdiv (jadd (jmul (to_num (atr_run hs ls cs period j ! (j - 1))) (Num (real period - 1)))
                     (true_range hs ls cs j))
               (Num (real period)))"
proof -
  have "length (atr_run hs ls cs period j) = length hs"
    using assms by (intro length_atr_run) simp_all
  then show ?thesis using assms
    by (simp add: atr_run_Suc atr_step_def js_set_in)
qed

lemma atr_const_prefix:
  assumes "1 \<le> period" "period < length hs" "\<forall>i. 1 \<le> i \<and> i < m \<longrightarrow> true_range hs ls cs i = Num 0"
    "m \<le> length hs"
  shows "period < j \<Longrightarrow> j \<le> m \<Longrightarrow> atr_run hs ls cs period j ! (j - 1) = Val (Num 0)"
proof (induction j)
  case 0
  then show ?case by simp
next
  case (Suc j)
  show ?case
  proof (cases "j = period")
    case True
    have "\<forall>i\<in>set is. 1 \<le> i \<and> i < m \<Longrightarrow>
          foldl (\<lambda>s i. jadd s (true_range hs ls cs i)) (Num 0) is = Num 0" for "is"
      using assms(3) by (induction "is") simp_all
    moreover have "\<forall>i\<in>set [1..<period + 1]. 1 \<le> i \<and> i < m"
      using Suc.prems True by auto
    ultimately have "foldl (\<lambda>s i. jadd s (true_range hs ls cs i)) (Num 0) [1..<period + 1] = Num 0"
      by blast
    then have "atr_seed hs ls cs period = Num 0" using assms(1) by (simp add: atr_seed_def)
    then show ?thesis using atr_run_base_nth[OF assms(2), of ls cs] True by simp
  next
    case False
    with Suc.prems have pj: "period < j" "j \<le> m" "j < m" "1 \<le> j" by simp_all
    then have jl: "j < length hs" using assms(4) by simp
    have "true_range hs ls cs j = Num 0" using assms(3) pj by simp
    then show ?thesis
      using atr_run_Suc_nth[OF pj(1) jl, of ls cs] Suc.IH[OF pj(1,2)] assms(1) by simp
  qed
qed

lemma buy_atr: "calculateATR buy_closes buy_closes buy_closes 14 ! 199 = Val (Num (55 / 196))"
proof -
  have tr0: "\<forall>i. 1 \<le> i \<and> i < 198 \<longrightarrow> true_range buy_closes buy_closes buy_closes i = Num 0"
  proof (intro allI impI)
    fix i :: nat assume i: "1 \<le> i \<and> i < 198"
    then have i1: "i - 1 < 198" "i - 1 < 200" "i < 200" by linarith+
    with i have "buy_closes ! i = 100" "buy_closes ! (i - 1) = 100"
      by (simp_all add: buy_closes_def nth_append)
    then show "true_range buy_closes buy_closes buy_closes i = Num 0"
      using i1 by (simp add: true_range_def rd_def jmax3_def jsub_def Let_def length_buy_closes)
  qed
  have tr198: "true_range buy_closes buy_closes buy_closes 198 = Num 1"
    by (simp add: true_range_def rd_def jmax3_def jsub_def Let_def length_buy_closes)
       (simp add: buy_closes_def nth_append)
  have tr199: "true_range buy_closes buy_closes buy_closes 199 = Num 3"
    by (simp add: true_range_def rd_def jmax3_def jsub_def Let_def length_buy_closes)
       (simp add: buy_closes_def nth_append)
  have "atr_run buy_closes buy_closes buy_closes 14 198 ! (198 - 1) = Val (Num 0)"
    by (rule atr_const_prefix[OF _ _ tr0]) (simp_all add: length_buy_closes)
  then have a197: "atr_run buy_closes buy_closes buy_closes 14 198 ! 197 = Val (Num 0)" by simp
  have "atr_run buy_closes buy_closes buy_closes 14 (Suc 198) ! 198 = Val (Num (1 / 14))"
    using atr_run_Suc_nth[of 14 198 buy_closes buy_closes buy_closes] a197 tr198
    by (simp add: length_buy_closes)
  then have a198: "atr_run buy_closes buy_closes buy_closes 14 199 ! 198 = Val (Num (1 / 14))"
    by simp
  have "atr_run buy_closes buy_closes buy_closes 14 (Suc 199) ! 199 = Val (Num (55 / 196))"
    using atr_run_Suc_nth[of 14 199 buy_closes buy_closes buy_closes] a198 tr199
    by (simp add: length_buy_closes)
  then show ?thesis
    by (simp add: calculateATR_run length_buy_closes)
qed

section \<open>The BUY rule\<close>

text \<open>
  C3. On a series of at least 200 bars the six latest indicator values are defined and,
  with them: if EMA-50 > EMA-200, the current price > EMA-50, the MACD line > the signal
  line, the MACD line > 0 and RSI > 55 all hold, \<open>analyzeData\<close> answers BUY with the
  entry price at the current price, the stop loss two ATR below it, the take profit
  \<open>(entryPrice - stopLoss) * 1.5\<close> above it and the four reasoning entries in their
  fixed order; if one of the conditions fails the direction is not BUY.
\<close>

theorem C3_buy_rule:
  assumes "200 \<le> length data"
  shows "\<exists>s e50 e200 mc sg rv av.
     analyzeData now data = Inr s \<and>
     at_last (ema50 (indicatorData s)) (length data) = Val e50 \<and>
     at_last (ema200 (indicatorData s)) (length data) = Val e200 \<and>
     at_last (macdLine (indicatorData s)) (length data) = Val mc \<and>
     at_last (signalLine (indicatorData s)) (length data) = Val sg \<and>
     at_last (rsi (indicatorData s)) (length data) = Val rv \<and>
     at_last (atr (indicatorData s)) (length data) = Val av \<and>
     (jgt e50 e200 \<and> jgt (currentPrice s) e50 \<and> jgt mc sg \<and> jgt mc (Num 0) \<and> jgt rv (Num 55)
      \<longrightarrow> direction s = BUY \<and>
          entryPrice s = Some (currentPrice s) \<and>
          stopLoss s = Some (jsub (currentPrice s) (jmul av (Num 2))) \<and>
          takeProfit s = Some (jadd (currentPrice s)
             (jmul (jsub (currentPrice s) (jsub (currentPrice s) (jmul av (Num 2))))
                   (Num (3 / 2)))) \<and>
          reasoning s =
            [''Uptrend Confirmed: EMA (50) is above EMA (200).'',
             ''Bullish Price Action: Price is trading above the EMA (50).'',
             ''Bullish Momentum: MACD is positive and above its signal line.'',
             ''Strong Momentum: RSI is above 55, indicating strong buying pressure.'']) \<and>
     (\<not> (jgt e50 e200 \<and> jgt (currentPrice s) e50 \<and> jgt mc sg \<and> jgt mc (Num 0)
          \<and> jgt rv (Num 55))
      \<longrightarrow> direction s \<noteq> BUY)"
proof -
  let ?b = "base_signal now data"
  from latest_defined[OF assms] obtain e50 e200 mc sg rv av where
    v: "at_last (ema50 (indicatorData ?b)) (length data) = Val e50"
       "at_last (ema200 (indicatorData ?b)) (length data) = Val e200"
       "at_last (macdLine (indicatorData ?b)) (length data) = Val mc"
       "at_last (signalLine (indicatorData ?b)) (length data) = Val sg"
       "at_last (rsi (indicatorData ?b)) (length data) = Val rv"
       "at_last (atr (indicatorData ?b)) (length data) = Val av"
    unfolding base_signal_fields by blast
  let ?s = "decide ?b (length data)"
  have i: "indicatorData ?s = indicatorData ?b" by (rule decide_indicatorData)
  have c: "currentPrice ?s = currentPrice ?b"
    unfolding decide_long[OF assms v] by simp
  have buy: "jgt e50 e200 \<and> jgt (currentPrice ?s) e50 \<and> jgt mc sg \<and> jgt mc (Num 0) \<and> jgt rv (Num 55)
      \<longrightarrow> direction ?s = BUY \<and>
          entryPrice ?s = Some (currentPrice ?s) \<and>
          stopLoss ?s = Some (jsub (currentPrice ?s) (jmul av (Num 2))) \<and>
          takeProfit ?s = Some (jadd (currentPrice ?s)
             (jmul (jsub (currentPrice ?s) (jsub (currentPrice ?s) (jmul av (Num 2))))
                   (Num (3 / 2)))) \<and>
          reasoning ?s =
            [''Uptrend Confirmed: EMA (50) is above EMA (200).'',
             ''Bullish Price Action: Price is trading above the EMA (50).'',
             ''Bullish Momentum: MACD is positive and above its signal line.'',
             ''Strong Momentum: RSI is above 55, indicating strong buying pressure.'']"
    unfolding c unfolding decide_long[OF assms v]
    by (simp add: ATR_MULTIPLIER_def RISK_REWARD_RATIO_def buy_reasoning_def)
  have nobuy: "\<not> (jgt e50 e200 \<and> jgt (currentPrice ?s) e50 \<and> jgt mc sg \<and> jgt mc (Num 0)
          \<and> jgt rv (Num 55)) \<longrightarrow> direction ?s \<noteq> BUY"
    unfolding c unfolding decide_long[OF assms v] by simp
  show ?thesis
    unfolding analyzeData_decide using v buy nobuy i by auto
qed

lemma decide_currentPrice: "currentPrice (decide base len) = currentPrice base"
  by (simp add: decide_def Let_def)

lemma buy_columns:
  "map close buy_bars = buy_closes" "map high buy_bars = buy_closes"
  "map low buy_bars = buy_closes" "length buy_bars = 200"
  by (simp_all add: buy_bars_def buy_closes_def)

lemma buy_latest:
  "at_last (ema50 (snapshot buy_bars)) 200 = Val (Num (260206 / 2601))"
  "at_last (ema200 (snapshot buy_bars)) 200 = Val (Num (20001 / 200))"
  "at_last (macdLine (snapshot buy_bars)) 200 = Val (Num (12068 / 123201))"
  "at_last (signalLine (snapshot buy_bars)) 200 = Val (Num (21028 / 3080025))"
  "at_last (rsi (snapshot buy_bars)) 200 = Val (Num (840 / 11))"
  "at_last (atr (snapshot buy_bars)) 200 = Val (Num (55 / 196))"
proof -
  have w: "macd_warmup 200 12 26 = 25" by (simp add: macd_warmup_def)
  have l: "length (calculateATR buy_closes buy_closes buy_closes 14) = 200"
    by (simp add: length_calculateATR length_buy_closes)
  show "at_last (ema50 (snapshot buy_bars)) 200 = Val (Num (260206 / 2601))"
    using buy_ema50
    by (simp add: snapshot_fields buy_columns at_last_def length_calculateEMA length_buy_closes)
  show "at_last (ema200 (snapshot buy_bars)) 200 = Val (Num (20001 / 200))"
    using buy_ema200
    by (simp add: snapshot_fields buy_columns at_last_def length_calculateEMA length_buy_closes)
  show "at_last (macdLine (snapshot buy_bars)) 200 = Val (Num (12068 / 123201))"
    using buy_macd(2)
    by (simp add: snapshot_fields buy_columns at_last_def length_macd_line length_buy_closes)
  show "at_last (signalLine (snapshot buy_bars)) 200 = Val (Num (21028 / 3080025))"
    using buy_signal length_signal[of buy_closes 12 26 9]
    by (simp add: snapshot_fields buy_columns at_last_def length_buy_closes w)
  show "at_last (rsi (snapshot buy_bars)) 200 = Val (Num (840 / 11))"
    using buy_rsi
    by (simp add: snapshot_fields buy_columns at_last_def length_calculateRSI length_buy_closes)
  show "at_last (atr (snapshot buy_bars)) 200 = Val (Num (55 / 196))"
    using buy_atr l
    by (simp add: snapshot_fields buy_columns at_last_def)
qed

lemma buy_currentPrice: "currentPrice (base_signal now buy_bars) = Num 102"
  by (simp add: base_signal_def Let_def buy_columns at_last_def)
     (simp add: buy_closes_def nth_append)

theorem C3_buy_rule_witness:
  "\<exists>s. analyzeData 7 buy_bars = Inr s \<and> direction s = BUY \<and>
       currentPrice s = Num 102 \<and>
       entryPrice s = Some (Num 102) \<and>
       stopLoss s = Some (Num (9941 / 98)) \<and>
       takeProfit s = Some (Num (20157 / 196)) \<and>
       reasoning s =
         [''Uptrend Confirmed: EMA (50) is above EMA (200).'',
          ''Bullish Price Action: Price is trading above the EMA (50).'',
          ''Bullish Momentum: MACD is positive and above its signal line.'',
          ''Strong Momentum: RSI is above 55, indicating strong buying pressure.'']"
proof -
  have len: "200 \<le> length buy_bars" by (simp add: buy_columns)
  from C3_buy_rule [OF len, of 7] obtain s e50 e200 mc sg rv av where
    s: "analyzeData 7 buy_bars = Inr s"
    and v: "at_last (ema50 (indicatorData s)) (length buy_bars) = Val e50"
      "at_last (ema200 (indicatorData s)) (length buy_bars) = Val e200"
      "at_last (macdLine (indicatorData s)) (length buy_bars) = Val mc"
      "at_last (signalLine (indicatorData s)) (length buy_bars) = Val sg"
      "at_last (rsi (indicatorData s)) (length buy_bars) = Val rv"
      "at_last (atr (indicatorData s)) (length buy_bars) = Val av"
    and buy: "jgt e50 e200 \<and> jgt (currentPrice s) e50 \<and> jgt mc sg \<and> jgt mc (Num 0)
              \<and> jgt rv (Num 55)
      \<longrightarrow> direction s = BUY \<and>
          entryPrice s = Some (currentPrice s) \<and>
          stopLoss s = Some (jsub (currentPrice s) (jmul av (Num 2))) \<and>
          takeProfit s = Some (jadd (currentPrice s)
             (jmul (jsub (currentPrice s) (jsub (currentPrice s) (jmul av (Num 2))))
                   (Num (3 / 2)))) \<and>
          reasoning s =
            [''Uptrend Confirmed: EMA (50) is above EMA (200).'',
             ''Bullish Price Action: Price is trading above the EMA (50).'',
             ''Bullish Momentum: MACD is positive and above its signal line.'',
             ''Strong Momentum: RSI is above 55, indicating strong buying pressure.'']"
    by blast
  from s have se: "s = decide (base_signal 7 buy_bars) (length buy_bars)"
    by (simp add: analyzeData_decide)
  have ind: "indicatorData s = snapshot buy_bars"
    unfolding se by (simp add: decide_indicatorData base_signal_fields)
  have cp: "currentPrice s = Num 102"
    unfolding se by (simp add: decide_currentPrice buy_currentPrice)
  from v have vals: "e50 = Num (260206 / 2601)" "e200 = Num (20001 / 200)"
    "mc = Num (12068 / 123201)" "sg = Num (21028 / 3080025)" "rv = Num (840 / 11)"
    "av = Num (55 / 196)"
    unfolding ind buy_columns(4) buy_latest by simp_all
  have "jgt e50 e200 \<and> jgt (currentPrice s) e50 \<and> jgt mc sg \<and> jgt mc (Num 0) \<and> jgt rv (Num 55)"
    unfolding vals cp by simp
  with buy have "direction s = BUY \<and>
          entryPrice s = Some (currentPrice s) \<and>
          stopLoss s = Some (jsub (currentPrice s) (jmul av (Num 2))) \<and>
          takeProfit s = Some (jadd (currentPrice s)
             (jmul (jsub (currentPrice s) (jsub (currentPrice s) (jmul av (Num 2))))
                   (Num (3 / 2)))) \<and>
          reasoning s =
            [''Uptrend Confirmed: EMA (50) is above EMA (200).'',
             ''Bullish Price Action: Price is trading above the EMA (50).'',
             ''Bullish Momentum: MACD is positive and above its signal line.'',
             ''Strong Momentum: RSI is above 55, indicating strong buying pressure.'']"
    by blast
  then show ?thesis using s cp unfolding vals by (simp add: jsub_def)
qed

end
